theory Spec2Isabelle
  imports Complex_Main
begin

section \<open>scripts/with-timeout.py: a supervisor with idle and hard timeouts\<close>

text \<open>
  The supervisor starts a child in its own process group, forwards its output line by
  line, and kills the group when the child has been silent for too long (idle timeout) or
  has run for too long (hard timeout). Everything the operating system answers (clock
  readings, what \<open>select\<close> and \<open>readline\<close> return, what \<open>poll\<close>, \<open>os.kill\<close> and
  \<open>os.killpg\<close> answer) is an input of the model; everything the supervisor does that the
  outside can see (text written, checks made, signals sent, sleeps) is appended to a trace.
  Clock readings are Python floats; they are modelled as reals, with exact subtraction.
\<close>

subsection \<open>Text: the PID pattern and \<open>int()\<close>\<close>

text \<open>
  Line 46 compiles the raw string literal \<^verbatim>\<open>r"xctest \\((\\d+)\\)"\<close>. In a raw literal a
  backslash is kept as it is, so the pattern handed to \<open>re\<close> has two backslashes at each of
  the three places. \<open>re\<close> reads each pair as one literal backslash, and the parentheses and
  the letter \<open>d\<close> that follow are then not escaped: the pattern is the text \<open>xctest\<close>, a
  space and a backslash, then group 1, which holds group 2 (a backslash and one or more
  letters \<open>d\<close>) and one more backslash.
\<close>

definition backslash :: char where
  "backslash = CHR 0x5C"

fun strip_prefix :: "string \<Rightarrow> string \<Rightarrow> string option" where
  "strip_prefix [] s = Some s"
| "strip_prefix (p # ps) [] = None"
| "strip_prefix (p # ps) (c # cs) = (if p = c then strip_prefix ps cs else None)"

text \<open>
  \<open>xctest_pid_re_match s\<close> is \<open>m.group(1)\<close> for a match that starts at the first character
  of \<open>s\<close>. The run of \<open>d\<close> is greedy, and as the next character has to be a backslash no
  shorter run can match.
\<close>

definition xctest_pid_re_match :: "string \<Rightarrow> string option" where
  "xctest_pid_re_match s =
     (case strip_prefix (''xctest '' @ [backslash, backslash]) s of
        None \<Rightarrow> None
      | Some r \<Rightarrow>
          (let ds = takeWhile (\<lambda>c. c = CHR ''d'') r;
               rest = dropWhile (\<lambda>c. c = CHR ''d'') r
           in if ds \<noteq> [] \<and> strip_prefix [backslash] rest \<noteq> None
              then Some (backslash # ds @ [backslash])
              else None))"

text \<open>\<open>xctest_pid_re.search(line)\<close>: the leftmost match, \<open>None\<close> when there is none.\<close>

fun xctest_pid_re_search :: "string \<Rightarrow> string option" where
  "xctest_pid_re_search [] = xctest_pid_re_match []"
| "xctest_pid_re_search (c # cs) =
     (case xctest_pid_re_match (c # cs) of
        Some g \<Rightarrow> Some g
      | None \<Rightarrow> xctest_pid_re_search cs)"

text \<open>
  \<open>int(s)\<close> on ASCII text, base 10: surrounding whitespace is dropped, one sign is
  allowed, then decimal digits, single underscores allowed between two digits. \<open>None\<close>
  stands for \<open>ValueError\<close>. This is \<open>int\<close> only as far as the PID pattern needs it:
  digits and whitespace outside ASCII, which \<open>int\<close> accepts, and the limit on the number
  of digits, beyond which it refuses, are not part of it. It is applied to the group of a
  match alone, which begins with a backslash and which \<open>int\<close> refuses whatever follows.
\<close>

definition is_space :: "char \<Rightarrow> bool" where
  "is_space c \<longleftrightarrow>
     c \<in> set [CHR '' '', CHR 0x09, CHR 0x0A, CHR 0x0B, CHR 0x0C, CHR 0x0D,
              CHR 0x1C, CHR 0x1D, CHR 0x1E, CHR 0x1F]"

definition is_digit :: "char \<Rightarrow> bool" where
  "is_digit c \<longleftrightarrow> 48 \<le> (of_char c :: nat) \<and> (of_char c :: nat) \<le> 57"

definition digit_val :: "char \<Rightarrow> int" where
  "digit_val c = int (of_char c) - 48"

fun parse_digits :: "int \<Rightarrow> string \<Rightarrow> int option" where
  "parse_digits acc [] = Some acc"
| "parse_digits acc [c] =
     (if is_digit c then Some (acc * 10 + digit_val c) else None)"
| "parse_digits acc (c # d # ds) =
     (if is_digit c then parse_digits (acc * 10 + digit_val c) (d # ds)
      else if c = CHR ''_'' \<and> is_digit d then parse_digits (acc * 10 + digit_val d) ds
      else None)"

definition strip :: "string \<Rightarrow> string" where
  "strip s = rev (dropWhile is_space (rev (dropWhile is_space s)))"

definition py_int :: "string \<Rightarrow> int option" where
  "py_int s =
     (case strip s of
        [] \<Rightarrow> None
      | c # cs \<Rightarrow>
          (let sgn = (if c = CHR ''-'' then - 1 else 1);
               body = (if c = CHR ''-'' \<or> c = CHR ''+'' then cs else c # cs)
           in case body of
                [] \<Rightarrow> None
              | d # ds \<Rightarrow>
                  (if is_digit d
                   then map_option (\<lambda>n. sgn * n) (parse_digits (digit_val d) ds)
                   else None)))"

text \<open>
  Lines 81 to 86: the new value of \<open>xctest_pid\<close> after a line has been read. A match
  whose group is not an integer leaves the variable as it was (\<open>except ValueError: pass\<close>).
\<close>

definition capture_pid :: "string \<Rightarrow> int option \<Rightarrow> int option" where
  "capture_pid line xctest_pid =
     (case xctest_pid_re_search line of
        None \<Rightarrow> xctest_pid
      | Some g \<Rightarrow> (case py_int g of Some n \<Rightarrow> Some n | None \<Rightarrow> xctest_pid))"

subsection \<open>Configuration: what \<open>main\<close> passes to \<open>run_with_timeouts\<close>\<close>

text \<open>The namespace \<open>argparse\<close> returns (lines 167 to 173), with its defaults.\<close>

record args =
  arg_idle :: int
  arg_hard :: int
  arg_sample :: bool
  arg_sample_seconds :: int

definition default_args :: args where
  "default_args = \<lparr>arg_idle = 0, arg_hard = 0, arg_sample = False, arg_sample_seconds = 8\<rparr>"

text \<open>The parameters of \<open>run_with_timeouts\<close> other than the command.\<close>

record config =
  idle_sec :: int
  hard_sec :: int
  sample_on_timeout :: bool
  sample_seconds :: int

type_synonym environ = "string \<rightharpoonup> string"

text \<open>\<open>os.environ.get(k, d)\<close>.\<close>

definition environ_get :: "environ \<Rightarrow> string \<Rightarrow> string \<Rightarrow> string" where
  "environ_get e k d = (case e k of None \<Rightarrow> d | Some v \<Rightarrow> v)"

text \<open>Line 195: \<open>bool\<close> of a string is true when the string is not empty.\<close>

definition env_sample_on_timeout :: "environ \<Rightarrow> bool" where
  "env_sample_on_timeout e \<longleftrightarrow> environ_get e ''WITH_TIMEOUT_SAMPLE_ON_TIMEOUT'' [] \<noteq> []"

text \<open>
  Lines 196 to 202. The value of the variable is any text the environment can hold, and
  \<open>int\<close> is Python's own: it is the parameter \<open>to_int\<close>, with \<open>None\<close> for
  \<open>ValueError\<close>, the one exception \<open>int\<close> raises on a string.
\<close>

definition effective_sample_seconds :: "(string \<Rightarrow> int option) \<Rightarrow> args \<Rightarrow> environ \<Rightarrow> int" where
  "effective_sample_seconds to_int a e =
     (case e ''WITH_TIMEOUT_SAMPLE_SECONDS'' of
        None \<Rightarrow> arg_sample_seconds a
      | Some v \<Rightarrow>
          (if v = [] then arg_sample_seconds a
           else case to_int v of Some n \<Rightarrow> n | None \<Rightarrow> arg_sample_seconds a))"

text \<open>Lines 204 to 210.\<close>

definition main_config :: "(string \<Rightarrow> int option) \<Rightarrow> args \<Rightarrow> environ \<Rightarrow> config" where
  "main_config to_int a e =
     \<lparr>idle_sec = arg_idle a,
      hard_sec = arg_hard a,
      sample_on_timeout = (arg_sample a \<or> env_sample_on_timeout e),
      sample_seconds = effective_sample_seconds to_int a e\<rparr>"

subsection \<open>The trace and the environment\<close>

datatype stream = Stdout | Stderr

text \<open>The supervisor's own messages, all printed to the error stream.\<close>

datatype notice =
    HardLimitExceeded
  | IdleLimitExceeded
  | SamplingXctest int int
  | SamplingChild int int
  | SampleNotFound
  | SampleFailed int

datatype signal = SIGTERM | SIGKILL

text \<open>
  What a run does, in the order in which it does it: child text forwarded to a parent
  stream, a notice printed, the two timeout comparisons with their results, a call of
  \<open>proc.poll()\<close> with its answer, a call of the sampling tool, a call of \<open>os.killpg\<close>
  on the child's group, a sleep and the final \<open>communicate\<close> with its time limit.
\<close>

datatype action =
    Forward stream string
  | Print notice
  | HardCheck bool
  | IdleCheck bool
  | Poll "int option"
  | Sample int int
  | Killpg signal
  | Sleep real
  | Communicate real

text \<open>
  \<open>readline\<close> on a stream that \<open>select\<close> reported: a line (empty at end of stream) and
  the clock reading of line 79, or no return at all (the stream holds part of a line and
  neither a newline nor the end of the stream follows).
\<close>

datatype reading = Line string real | Never

text \<open>
  One turn of the loop of lines 67 to 104, as the environment presents it: the clock at
  line 68, the streams \<open>select\<close> reports with what \<open>readline\<close> gives on each, the clock
  at line 99 and the answer of \<open>proc.poll()\<close> at line 95 or 103. A reading the code does
  not ask for in that turn is not looked at.
\<close>

record cycle =
  now_top :: real
  ready :: "(stream \<times> reading) list"
  now_idle :: real
  polled :: "int option"

text \<open>The variables of \<open>run_with_timeouts\<close>, \<open>proc.returncode\<close> and the trace.\<close>

record state =
  last_at :: real
  xctest_pid :: "int option"
  timed_out :: bool
  returncode :: "int option"
  trace :: "action list"

definition initial :: "real \<Rightarrow> state" where
  "initial start =
     \<lparr>last_at = start, xctest_pid = None, timed_out = False, returncode = None, trace = []\<rparr>"

definition emit :: "action \<Rightarrow> state \<Rightarrow> state" where
  "emit a st = st\<lparr>trace := trace st @ [a]\<rparr>"

text \<open>
  \<open>proc.poll()\<close>: once the child has been reaped the stored code is returned; before
  that the operating system's answer is stored and returned.
\<close>

definition poll :: "int option \<Rightarrow> state \<Rightarrow> state" where
  "poll answer st =
     (case returncode st of
        Some r \<Rightarrow> emit (Poll (Some r)) st
      | None \<Rightarrow> emit (Poll answer) (st\<lparr>returncode := answer\<rparr>))"

subsection \<open>The monitoring loop (lines 64 to 106)\<close>

text \<open>Lines 76 to 93: the inner loop over the reported streams.\<close>

fun read_events :: "(stream \<times> reading) list \<Rightarrow> state \<Rightarrow> state option" where
  "read_events [] st = Some st"
| "read_events ((s, Never) # es) st = None"
| "read_events ((s, Line l t) # es) st =
     read_events es
       (if l \<noteq> []
        then emit (Forward s l) (st\<lparr>last_at := t, xctest_pid := capture_pid l (xctest_pid st)\<rparr>)
        else st)"

datatype loop_result = Continue state | Break state | Blocked state

text \<open>Lines 95 and 96, and 103 and 104.\<close>

definition check_ended :: "int option \<Rightarrow> state \<Rightarrow> loop_result" where
  "check_ended answer st =
     (let st' = poll answer st
      in if returncode st' \<noteq> None then Break st' else Continue st')"

text \<open>
  The conditions of lines 68 and 99. The conjunctions are short-circuit: with a limit of 0
  the clock is not read and no comparison is made.
\<close>

definition hard_limit_exceeded :: "config \<Rightarrow> real \<Rightarrow> cycle \<Rightarrow> bool" where
  "hard_limit_exceeded cfg start c \<longleftrightarrow>
     hard_sec cfg \<noteq> 0 \<and> now_top c - start > real_of_int (hard_sec cfg)"

definition idle_limit_exceeded :: "config \<Rightarrow> cycle \<Rightarrow> state \<Rightarrow> bool" where
  "idle_limit_exceeded cfg c st \<longleftrightarrow>
     idle_sec cfg \<noteq> 0 \<and> now_idle c - last_at st > real_of_int (idle_sec cfg)"

text \<open>A comparison that was made (the limit is not 0) and came out false.\<close>

definition passed :: "action \<Rightarrow> int \<Rightarrow> state \<Rightarrow> state" where
  "passed chk limit st = (if limit \<noteq> 0 then emit chk st else st)"

text \<open>Lines 69 and 70, and 100 and 101.\<close>

definition record_timeout :: "action \<Rightarrow> notice \<Rightarrow> state \<Rightarrow> state" where
  "record_timeout chk n st = emit (Print n) (emit chk (st\<lparr>timed_out := True\<rparr>))"

text \<open>One turn of \<open>while True\<close>.\<close>

definition cycle_step :: "config \<Rightarrow> real \<Rightarrow> cycle \<Rightarrow> state \<Rightarrow> loop_result" where
  "cycle_step cfg start c st =
     (if hard_limit_exceeded cfg start c
      then Break (record_timeout (HardCheck True) HardLimitExceeded st)
      else
        (let st1 = passed (HardCheck False) (hard_sec cfg) st
         in if ready c \<noteq> []
            then (case read_events (ready c) st1 of
                    None \<Rightarrow> Blocked st1
                  | Some st2 \<Rightarrow> check_ended (polled c) st2)
            else if idle_limit_exceeded cfg c st1
            then Break (record_timeout (IdleCheck True) IdleLimitExceeded st1)
            else check_ended (polled c) (passed (IdleCheck False) (idle_sec cfg) st1)))"

text \<open>
  The loop over the turns the environment presents. \<open>Continue\<close> as a result says that
  the loop is still running after the last of them, \<open>Blocked\<close> that it stays in
  \<open>readline\<close> for ever.
\<close>

fun monitor :: "config \<Rightarrow> real \<Rightarrow> cycle list \<Rightarrow> state \<Rightarrow> loop_result" where
  "monitor cfg start [] st = Continue st"
| "monitor cfg start (c # cs) st =
     (case cycle_step cfg start c st of
        Continue st' \<Rightarrow> monitor cfg start cs st'
      | Break st' \<Rightarrow> Break st'
      | Blocked st' \<Rightarrow> Blocked st')"

subsection \<open>After the loop: sampling, termination, draining (lines 108 to 163)\<close>

text \<open>
  The answers of the operating system after the loop, one field for each call site:
  \<open>os.kill(pid, 0)\<close> for any pid, the sampling tool, \<open>os.killpg\<close> at lines 140, 147
  (inside \<open>kill_tree\<close>) and 149 (inside \<open>kill_tree\<close>), \<open>proc.poll()\<close> at lines 125, 143
  (by the number of the turn) and 146, and \<open>proc.communicate\<close> at line 153.
  A signalling call returns, or raises \<open>ProcessLookupError\<close> (no such process or
  group) or \<open>PermissionError\<close>; these are the outcomes the system call has for a pid
  in range, and no other is modelled.
\<close>

datatype probe_result = ProbeOk | ProbeNoProcess | ProbeNoPermission

datatype killpg_result = Delivered | NoSuchGroup | NotPermitted

datatype sample_result = SampleRan | SampleToolMissing | SampleToolError

datatype drain_result = Drained string string int | DrainRaised

datatype exn = ProcessLookupError | PermissionError

record env =
  poll_125 :: "int option"
  probe :: "int \<Rightarrow> probe_result"
  sample_run :: sample_result
  killpg_140 :: killpg_result
  poll_143 :: "nat \<Rightarrow> int option"
  poll_146 :: "int option"
  killpg_147 :: killpg_result
  killpg_149 :: killpg_result
  communicate_153 :: drain_result

text \<open>Lines 33 to 38: only \<open>ProcessLookupError\<close> is caught.\<close>

definition kill_tree :: "killpg_result \<Rightarrow> signal \<Rightarrow> state \<Rightarrow> (exn \<times> state) + state" where
  "kill_tree answer sig st =
     (let st' = emit (Killpg sig) st
      in case answer of
           Delivered \<Rightarrow> Inr st'
         | NoSuchGroup \<Rightarrow> Inr st'
         | NotPermitted \<Rightarrow> Inl (PermissionError, st'))"

text \<open>
  Lines 108 to 115, for a pid that fits \<open>pid_t\<close>, as \<open>proc.pid\<close> does. (For a larger
  number \<open>os.kill\<close> raises \<open>OverflowError\<close>, which these lines do not catch; the only
  other pid the code ever probes is \<open>xctest_pid\<close>, which no run sets.)
\<close>

definition pid_exists :: "env \<Rightarrow> int \<Rightarrow> bool" where
  "pid_exists e pid =
     (case probe e pid of
        ProbeOk \<Rightarrow> True
      | ProbeNoProcess \<Rightarrow> False
      | ProbeNoPermission \<Rightarrow> True)"

text \<open>Lines 117 to 123: every failure of the tool ends in a notice.\<close>

definition sample_pid :: "env \<Rightarrow> int \<Rightarrow> int \<Rightarrow> state \<Rightarrow> state" where
  "sample_pid e pid seconds st =
     (let st' = emit (Sample pid seconds) st
      in case sample_run e of
           SampleRan \<Rightarrow> st'
         | SampleToolMissing \<Rightarrow> emit (Print SampleNotFound) st'
         | SampleToolError \<Rightarrow> emit (Print (SampleFailed pid)) st')"

text \<open>
  Lines 129 to 135: the target and the notice that goes with it. \<open>xctest_pid and ...\<close>
  is false for \<open>None\<close> and for 0.
\<close>

definition sample_target :: "config \<Rightarrow> int \<Rightarrow> env \<Rightarrow> int option \<Rightarrow> (int \<times> notice) option" where
  "sample_target cfg pid e xp =
     (if (case xp of None \<Rightarrow> False | Some x \<Rightarrow> x \<noteq> 0 \<and> pid_exists e x)
      then map_option (\<lambda>x. (x, SamplingXctest x (sample_seconds cfg))) xp
      else if pid_exists e pid
      then Some (pid, SamplingChild pid (sample_seconds cfg))
      else None)"

text \<open>Lines 128 to 137.\<close>

definition sample_stage :: "config \<Rightarrow> int \<Rightarrow> env \<Rightarrow> state \<Rightarrow> state" where
  "sample_stage cfg pid e st =
     (if sample_on_timeout cfg
      then (case sample_target cfg pid e (xctest_pid st) of
              None \<Rightarrow> st
            | Some (t, n) \<Rightarrow>
                (let st1 = emit (Print n) st
                 in if t \<noteq> 0 then sample_pid e t (sample_seconds cfg) st1 else st1))
      else st)"

text \<open>Lines 142 to 145: at most \<open>n\<close> more polls, a sleep of 0.2 seconds after each miss.\<close>

fun grace_wait :: "nat \<Rightarrow> (nat \<Rightarrow> int option) \<Rightarrow> nat \<Rightarrow> state \<Rightarrow> state" where
  "grace_wait 0 answers i st = st"
| "grace_wait (Suc n) answers i st =
     (let st' = poll (answers i) st
      in if returncode st' \<noteq> None then st'
         else grace_wait n answers (Suc i) (emit (Sleep (2 / 10)) st'))"

text \<open>Lines 127 to 147, the body of \<open>try\<close>; \<open>Inl\<close> is an exception on its way out.\<close>

definition escalate :: "config \<Rightarrow> int \<Rightarrow> env \<Rightarrow> state \<Rightarrow> (exn \<times> state) + state" where
  "escalate cfg pid e st =
     (let st1 = sample_stage cfg pid e st;
          st2 = emit (Killpg SIGTERM) st1
      in case killpg_140 e of
           NoSuchGroup \<Rightarrow> Inl (ProcessLookupError, st2)
         | NotPermitted \<Rightarrow> Inl (PermissionError, st2)
         | Delivered \<Rightarrow>
             (let st3 = grace_wait 10 (poll_143 e) 0 st2;
                  st4 = poll (poll_146 e) st3
              in if returncode st4 = None
                 then kill_tree (killpg_147 e) SIGKILL st4
                 else Inr st4))"

text \<open>
  Lines 125 to 149. \<open>timed_out and proc.poll() is None\<close> does not poll when no timeout
  was recorded; \<open>except Exception\<close> catches both exceptions and calls \<open>kill_tree\<close>,
  whose own exception is not caught by anything.
\<close>

definition terminate :: "config \<Rightarrow> int \<Rightarrow> env \<Rightarrow> state \<Rightarrow> (exn \<times> state) + state" where
  "terminate cfg pid e st =
     (if timed_out st
      then (let st0 = poll (poll_125 e) st
            in if returncode st0 = None
               then (case escalate cfg pid e st0 of
                       Inr st' \<Rightarrow> Inr st'
                     | Inl (ex, st') \<Rightarrow> kill_tree (killpg_149 e) SIGKILL st')
               else Inr st0)
      else Inr st)"

text \<open>
  Lines 151 to 159. \<open>communicate\<close> waits for the child, so a call that returns has set
  \<open>proc.returncode\<close>; a call that raises changes nothing and prints nothing.
\<close>

definition drain :: "env \<Rightarrow> state \<Rightarrow> state" where
  "drain e st =
     (let st1 = emit (Communicate 3) st
      in case communicate_153 e of
           DrainRaised \<Rightarrow> st1
         | Drained out err rc \<Rightarrow>
             (let st2 = st1\<lparr>returncode :=
                          (case returncode st1 of None \<Rightarrow> Some rc | Some r \<Rightarrow> Some r)\<rparr>;
                  st3 = (if out \<noteq> [] then emit (Forward Stdout out) st2 else st2)
              in if err \<noteq> [] then emit (Forward Stderr err) st3 else st3))"

text \<open>Lines 161 to 163; \<open>proc.returncode or 0\<close> is 0 for \<open>None\<close> and for 0.\<close>

definition exit_code :: "state \<Rightarrow> int" where
  "exit_code st =
     (if timed_out st then 124
      else (case returncode st of None \<Rightarrow> 0 | Some r \<Rightarrow> if r = 0 then 0 else r))"

text \<open>
  How a run ends: it returns a code, it raises, it is still in the loop when the turns
  presented are used up, or it never comes back from \<open>readline\<close>.
\<close>

datatype verdict = Returns int | Raises exn | StillRunning | BlockedInReadline

definition after_loop :: "config \<Rightarrow> int \<Rightarrow> env \<Rightarrow> state \<Rightarrow> verdict \<times> state" where
  "after_loop cfg pid e st =
     (case terminate cfg pid e st of
        Inl (ex, st') \<Rightarrow> (Raises ex, st')
      | Inr st' \<Rightarrow> (let st'' = drain e st' in (Returns (exit_code st''), st'')))"

text \<open>
  \<open>run_with_timeouts\<close>: \<open>pid\<close> is \<open>proc.pid\<close>, \<open>start\<close> the clock reading of line 42,
  \<open>script\<close> the turns of the loop and \<open>e\<close> the answers after the loop.
\<close>

definition run_with_timeouts ::
    "config \<Rightarrow> int \<Rightarrow> real \<Rightarrow> cycle list \<Rightarrow> env \<Rightarrow> verdict \<times> state" where
  "run_with_timeouts cfg pid start script e =
     (case monitor cfg start script (initial start) of
        Break st \<Rightarrow> after_loop cfg pid e st
      | Continue st \<Rightarrow> (StillRunning, st)
      | Blocked st \<Rightarrow> (BlockedInReadline, st))"

subsection \<open>Reading a trace\<close>

text \<open>
  Projections of a trace and names for conditions of the code, used to state what a run
  did: the comparisons and polls that decide how the loop ends, the signals sent, the time
  slept, the notices printed.
\<close>

text \<open>A comparison or poll that ends the loop: a limit found exceeded (lines 68 and 99) or
  a child found gone (lines 95 and 103).\<close>

fun decisive :: "action \<Rightarrow> bool" where
  "decisive (HardCheck b) = b"
| "decisive (IdleCheck b) = b"
| "decisive (Poll r) = (r \<noteq> None)"
| "decisive _ = False"

text \<open>The comparisons and polls, whatever their result.\<close>

fun is_check :: "action \<Rightarrow> bool" where
  "is_check (HardCheck b) = True"
| "is_check (IdleCheck b) = True"
| "is_check (Poll r) = True"
| "is_check _ = False"

text \<open>The two timeout comparisons.\<close>

fun timeout_check :: "action \<Rightarrow> bool" where
  "timeout_check (HardCheck b) = True"
| "timeout_check (IdleCheck b) = True"
| "timeout_check _ = False"

text \<open>What the supervisor does to other processes: sampling and signalling.\<close>

fun intervention :: "action \<Rightarrow> bool" where
  "intervention (Sample p s) = True"
| "intervention (Killpg s) = True"
| "intervention _ = False"

text \<open>Child text passed on.\<close>

fun forwarded :: "action \<Rightarrow> bool" where
  "forwarded (Forward s l) = True"
| "forwarded _ = False"

text \<open>The actions of \<open>st'\<close> that \<open>st\<close> does not have yet, for a state \<open>st'\<close> reached from \<open>st\<close>.\<close>

definition fresh :: "state \<Rightarrow> state \<Rightarrow> action list" where
  "fresh st st' = drop (length (trace st)) (trace st')"

text \<open>The signals sent to the group, in order.\<close>

fun signal_of :: "action \<Rightarrow> signal list" where
  "signal_of (Killpg s) = [s]"
| "signal_of _ = []"

definition signals :: "action list \<Rightarrow> signal list" where
  "signals tr = concat (map signal_of tr)"

text \<open>The time spent in \<open>time.sleep\<close>, in seconds.\<close>

fun sleep_of :: "action \<Rightarrow> real" where
  "sleep_of (Sleep d) = d"
| "sleep_of _ = 0"

definition slept :: "action list \<Rightarrow> real" where
  "slept tr = sum_list (map sleep_of tr)"

text \<open>The notices printed, in order.\<close>

fun notice_of :: "action \<Rightarrow> notice list" where
  "notice_of (Print n) = [n]"
| "notice_of _ = []"

definition notices :: "action list \<Rightarrow> notice list" where
  "notices tr = concat (map notice_of tr)"

text \<open>The state in which lines 125 to 149 end, whether an exception is on its way out or not.\<close>

definition final :: "(exn \<times> state) + state \<Rightarrow> state" where
  "final r = (case r of Inl (ex, st) \<Rightarrow> st | Inr st \<Rightarrow> st)"

text \<open>The child is not found gone by any of the ten polls of line 143 nor by that of line 146.\<close>

definition survives_grace :: "env \<Rightarrow> bool" where
  "survives_grace e \<longleftrightarrow> list_all (\<lambda>i. poll_143 e i = None) [0..<10] \<and> poll_146 e = None"

text \<open>The state a loop result carries.\<close>

definition loop_state :: "loop_result \<Rightarrow> state" where
  "loop_state r = (case r of Continue st \<Rightarrow> st | Break st \<Rightarrow> st | Blocked st \<Rightarrow> st)"

text \<open>The calls of the sampling tool that lines 128 to 137 make.\<close>

definition sampling :: "config \<Rightarrow> int \<Rightarrow> env \<Rightarrow> int option \<Rightarrow> action list" where
  "sampling cfg pid e xp =
     (if sample_on_timeout cfg
      then (case sample_target cfg pid e xp of
              None \<Rightarrow> []
            | Some (t, n) \<Rightarrow> if t \<noteq> 0 then [Sample t (sample_seconds cfg)] else [])
      else [])"

text \<open>The signals that follow the \<open>SIGTERM\<close> of line 140: none when the child is gone within
  the grace wait, \<open>SIGKILL\<close> at line 147 when it is not (and again at line 149 when that
  call is refused), \<open>SIGKILL\<close> at line 149 when the call of line 140 raised.\<close>

definition after_sigterm :: "env \<Rightarrow> signal list" where
  "after_sigterm e =
     (if killpg_140 e = Delivered
      then (if survives_grace e
            then SIGKILL # (if killpg_147 e = NotPermitted then [SIGKILL] else [])
            else [])
      else [SIGKILL])"

text \<open>The state after the polls of lines 143 and 146, when the call of line 140 returned.\<close>

definition graced :: "config \<Rightarrow> int \<Rightarrow> env \<Rightarrow> state \<Rightarrow> state" where
  "graced cfg pid e st =
     poll (poll_146 e)
       (grace_wait 10 (poll_143 e) 0 (emit (Killpg SIGTERM) (sample_stage cfg pid e st)))"

text \<open>The condition of line 125.\<close>

definition engaged :: "env \<Rightarrow> state \<Rightarrow> bool" where
  "engaged e st \<longleftrightarrow> timed_out st \<and> returncode st = None \<and> poll_125 e = None"

subsection \<open>Inputs used in the examples\<close>

text \<open>
  A child that has closed both of its streams and is still running makes \<open>select\<close>
  report both streams at once in every turn, and \<open>readline\<close> return the empty string
  on each (\<open>eof_cycle\<close>); a child that keeps them open and writes nothing makes
  \<open>select\<close> time out (\<open>silent_cycle\<close>). In \<open>calm\<close> every signal is delivered and the
  child is gone at the second poll of the grace loop.
\<close>

definition idle_only :: config where
  "idle_only = \<lparr>idle_sec = 2, hard_sec = 0, sample_on_timeout = False, sample_seconds = 8\<rparr>"

definition eof_cycle :: "real \<Rightarrow> int option \<Rightarrow> cycle" where
  "eof_cycle t p =
     \<lparr>now_top = t, ready = [(Stdout, Line [] t), (Stderr, Line [] t)], now_idle = t, polled = p\<rparr>"

definition silent_cycle :: "real \<Rightarrow> int option \<Rightarrow> cycle" where
  "silent_cycle t p = \<lparr>now_top = t, ready = [], now_idle = t, polled = p\<rparr>"

definition calm :: env where
  "calm = \<lparr>poll_125 = None, probe = (\<lambda>_. ProbeOk), sample_run = SampleRan,
     killpg_140 = Delivered, poll_143 = (\<lambda>i. if i = 0 then None else Some (- 15)), poll_146 = None,
     killpg_147 = Delivered, killpg_149 = Delivered, communicate_153 = Drained [] [] (- 15)\<rparr>"

text \<open>A hard limit of 5 seconds, and a turn that starts before the limit, reads a last line
  after it and finds the child gone.\<close>

definition hard_only :: config where
  "hard_only = \<lparr>idle_sec = 0, hard_sec = 5, sample_on_timeout = False, sample_seconds = 8\<rparr>"

definition late_exit :: cycle where
  "late_exit = \<lparr>now_top = 45 / 10, ready = [(Stdout, Line ''done'' (52 / 10))],
                now_idle = 52 / 10, polled = Some 0\<rparr>"

text \<open>Every \<open>os.killpg\<close> raises \<open>ProcessLookupError\<close>.\<close>

definition group_gone :: env where
  "group_gone = calm\<lparr>killpg_140 := NoSuchGroup, killpg_147 := NoSuchGroup, killpg_149 := NoSuchGroup\<rparr>"

text \<open>The child is still there at every poll of the grace wait.\<close>

definition stubborn :: env where
  "stubborn = calm\<lparr>poll_143 := (\<lambda>i. None)\<rparr>"

text \<open>The calls of lines 140 and 149 raise \<open>PermissionError\<close>.\<close>

definition group_denied :: env where
  "group_denied = calm\<lparr>killpg_140 := NotPermitted, killpg_149 := NotPermitted\<rparr>"

text \<open>\<open>proc.communicate\<close> raises (\<open>TimeoutExpired\<close>, say).\<close>

definition drain_fails :: env where
  "drain_fails = calm\<lparr>communicate_153 := DrainRaised\<rparr>"

text \<open>An idle limit of 2 seconds with sampling enabled.\<close>

definition sampling_on :: config where
  "sampling_on = \<lparr>idle_sec = 2, hard_sec = 0, sample_on_timeout = True, sample_seconds = 8\<rparr>"

section \<open>Properties\<close>

subsection \<open>PID discovery\<close>

lemma match_shape: "xctest_pid_re_match s = Some g \<Longrightarrow> \<exists>ds. g = backslash # ds @ [backslash]"
  by (auto simp: xctest_pid_re_match_def Let_def split: option.splits if_splits)

lemma search_shape: "xctest_pid_re_search s = Some g \<Longrightarrow> \<exists>ds. g = backslash # ds @ [backslash]"
  by (induction s) (auto dest: match_shape split: option.splits)

lemma py_int_backslash: "py_int (backslash # ds @ [backslash]) = None"
proof -
  have "\<not> is_space backslash"
    by (simp add: is_space_def backslash_def)
  then have "strip (backslash # ds @ [backslash]) = backslash # ds @ [backslash]"
    by (simp add: strip_def)
  moreover have "\<not> is_digit backslash" "backslash \<noteq> CHR ''-''" "backslash \<noteq> CHR ''+''"
    by (simp_all add: is_digit_def backslash_def)
  ultimately show ?thesis by (simp add: py_int_def)
qed

lemma capture_pid_same: "capture_pid line p = p"
  by (auto simp: capture_pid_def py_int_backslash split: option.splits dest!: search_shape)

text \<open>
  C4. The claim: the line \<open>xctest (81823)\<close> sets \<open>xctest_pid\<close> to 81823 and a later
  line \<open>xctest (99)\<close> overwrites it with 99. The pattern of line 46 asks for backslashes
  that such a line does not have, and the group of any line that does match begins with a
  backslash, which \<open>int\<close> refuses: no line changes \<open>xctest_pid\<close>.
\<close>

theorem C4_pid_never_captured:
  "capture_pid ''xctest (81823)'' None = None
   \<and> capture_pid ''xctest (99)'' (Some 81823) = Some 81823
   \<and> xctest_pid_re_search ''xctest (81823)'' = None
   \<and> capture_pid line p = p"
proof -
  have "xctest_pid_re_search ''xctest (81823)'' = None"
    by (simp add: xctest_pid_re_match_def backslash_def)
  then show ?thesis by (simp add: capture_pid_same)
qed

subsection \<open>Facts about the loop and about what follows it\<close>

lemma emit_fields [simp]:
  "trace (emit a st) = trace st @ [a]"
  "timed_out (emit a st) = timed_out st"
  "returncode (emit a st) = returncode st"
  "xctest_pid (emit a st) = xctest_pid st"
  "last_at (emit a st) = last_at st"
  by (simp_all add: emit_def)

lemma poll_fields [simp]:
  "trace (poll r st) = trace st @ [Poll (case returncode st of None \<Rightarrow> r | Some x \<Rightarrow> Some x)]"
  "returncode (poll r st) = (case returncode st of None \<Rightarrow> r | Some x \<Rightarrow> Some x)"
  "timed_out (poll r st) = timed_out st"
  "xctest_pid (poll r st) = xctest_pid st"
  "last_at (poll r st) = last_at st"
  by (simp_all add: poll_def split: option.splits)

lemma passed_fields [simp]:
  "trace (passed chk limit st) = trace st @ (if limit \<noteq> 0 then [chk] else [])"
  "timed_out (passed chk limit st) = timed_out st"
  "returncode (passed chk limit st) = returncode st"
  "xctest_pid (passed chk limit st) = xctest_pid st"
  "last_at (passed chk limit st) = last_at st"
  by (simp_all add: passed_def)

lemma record_timeout_fields [simp]:
  "trace (record_timeout chk n st) = trace st @ [chk, Print n]"
  "timed_out (record_timeout chk n st)"
  "returncode (record_timeout chk n st) = returncode st"
  "xctest_pid (record_timeout chk n st) = xctest_pid st"
  "last_at (record_timeout chk n st) = last_at st"
  by (simp_all add: record_timeout_def)

lemma projections_append [simp]:
  "signals (xs @ ys) = signals xs @ signals ys"
  "slept (xs @ ys) = slept xs + slept ys"
  "notices (xs @ ys) = notices xs @ notices ys"
  by (simp_all add: signals_def slept_def notices_def)

lemma projections_Nil [simp]:
  "signals [] = []" "slept [] = 0" "notices [] = []"
  by (simp_all add: signals_def slept_def notices_def)

lemma projections_Cons [simp]:
  "signals (a # tr) = signal_of a @ signals tr"
  "slept (a # tr) = sleep_of a + slept tr"
  "notices (a # tr) = notice_of a @ notices tr"
  by (simp_all add: signals_def slept_def notices_def)

lemma forwarded_only:
  assumes "list_all forwarded new"
  shows "filter is_check new = []" "filter decisive new = []" "filter intervention new = []"
    "filter timeout_check new = []" "slept new = 0" "notices new = []" "signals new = []"
  using assms
proof (induction new)
  case Nil
  {
    case 1 show ?case by simp
  next
    case 2 show ?case by simp
  next
    case 3 show ?case by simp
  next
    case 4 show ?case by simp
  next
    case 5 show ?case by simp
  next
    case 6 show ?case by simp
  next
    case 7 show ?case by simp
  }
next
  case (Cons a new)
  {
    case 1 with Cons.IH(1) show ?case by (cases a) simp_all
  next
    case 2 with Cons.IH(2) show ?case by (cases a) simp_all
  next
    case 3 with Cons.IH(3) show ?case by (cases a) simp_all
  next
    case 4 with Cons.IH(4) show ?case by (cases a) simp_all
  next
    case 5 with Cons.IH(5) show ?case by (cases a) simp_all
  next
    case 6 with Cons.IH(6) show ?case by (cases a) simp_all
  next
    case 7 with Cons.IH(7) show ?case by (cases a) simp_all
  }
qed

lemma decisive_is_check: "decisive a \<Longrightarrow> is_check a"
  by (cases a) simp_all

lemma filter_decisive_checks: "filter decisive (filter is_check xs) = filter decisive xs"
  by (induction xs) (auto dest: decisive_is_check)

lemma read_events_some:
  "read_events es st = Some st' \<Longrightarrow>
     (\<exists>new. trace st' = trace st @ new \<and> list_all forwarded new)
     \<and> timed_out st' = timed_out st \<and> returncode st' = returncode st
     \<and> xctest_pid st' = xctest_pid st"
proof (induction es arbitrary: st)
  case Nil
  then show ?case by simp
next
  case (Cons ev es)
  obtain s r where ev: "ev = (s, r)" by (cases ev)
  show ?case
  proof (cases r)
    case Never
    with Cons.prems ev show ?thesis by simp
  next
    case (Line l t)
    let ?mid = "if l \<noteq> []
        then emit (Forward s l) (st\<lparr>last_at := t, xctest_pid := capture_pid l (xctest_pid st)\<rparr>)
        else st"
    from Cons.prems ev Line have "read_events es ?mid = Some st'" by simp
    from Cons.IH [OF this] show ?thesis by (auto simp: capture_pid_same)
  qed
qed

lemma check_ended_eq:
  "check_ended r st =
     (if returncode st = None \<and> r = None then Continue (poll r st) else Break (poll r st))"
  by (simp add: check_ended_def Let_def split: option.splits)

lemma cycle_step_cases [case_names hard blocked events idle quiet]:
  fixes cfg start c st
  defines "st1 \<equiv> passed (HardCheck False) (hard_sec cfg) st"
  obtains
    "hard_limit_exceeded cfg start c"
    "cycle_step cfg start c st = Break (record_timeout (HardCheck True) HardLimitExceeded st)"
  | "\<not> hard_limit_exceeded cfg start c" "ready c \<noteq> []" "read_events (ready c) st1 = None"
    "cycle_step cfg start c st = Blocked st1"
  | st2 where "\<not> hard_limit_exceeded cfg start c" "ready c \<noteq> []"
    "read_events (ready c) st1 = Some st2"
    "cycle_step cfg start c st = check_ended (polled c) st2"
  | "\<not> hard_limit_exceeded cfg start c" "ready c = []" "idle_limit_exceeded cfg c st1"
    "cycle_step cfg start c st = Break (record_timeout (IdleCheck True) IdleLimitExceeded st1)"
  | "\<not> hard_limit_exceeded cfg start c" "ready c = []" "\<not> idle_limit_exceeded cfg c st1"
    "cycle_step cfg start c st = check_ended (polled c) (passed (IdleCheck False) (idle_sec cfg) st1)"
proof (cases "hard_limit_exceeded cfg start c")
  case True
  then show ?thesis using that(1) by (simp add: cycle_step_def)
next
  case nohard: False
  show ?thesis
  proof (cases "ready c = []")
    case True
    show ?thesis
    proof (cases "idle_limit_exceeded cfg c st1")
      case True
      with nohard \<open>ready c = []\<close> show ?thesis
        using that(4) by (simp add: cycle_step_def st1_def)
    next
      case False
      with nohard \<open>ready c = []\<close> show ?thesis
        using that(5) by (simp add: cycle_step_def st1_def)
    qed
  next
    case False
    show ?thesis
    proof (cases "read_events (ready c) st1")
      case None
      with nohard False show ?thesis
        using that(2) by (simp add: cycle_step_def st1_def)
    next
      case (Some st2)
      with nohard False show ?thesis
        using that(3) by (simp add: cycle_step_def st1_def)
    qed
  qed
qed

lemma cycle_step_continue:
  assumes "cycle_step cfg start c st = Continue st'"
  shows "(\<exists>new. trace st' = trace st @ new \<and> filter decisive new = [])
         \<and> timed_out st' = timed_out st \<and> returncode st' = None"
proof (cases rule: cycle_step_cases [of cfg start c st])
  case hard
  with assms show ?thesis by simp
next
  case blocked
  with assms show ?thesis by simp
next
  case (events st2)
  from read_events_some [OF events(3)] obtain new where
    n: "trace st2 = trace st @ (if hard_sec cfg \<noteq> 0 then [HardCheck False] else []) @ new"
      "list_all forwarded new" "timed_out st2 = timed_out st" "returncode st2 = returncode st"
    by auto
  from assms events(4) have st': "st' = poll (polled c) st2" "returncode st2 = None" "polled c = None"
    by (auto simp: check_ended_eq split: if_splits)
  with n show ?thesis by (simp add: forwarded_only)
next
  case idle
  with assms show ?thesis by simp
next
  case quiet
  with assms show ?thesis
    by (auto simp: check_ended_eq split: if_splits)
qed

lemma cycle_step_break:
  assumes "cycle_step cfg start c st = Break st'"
  shows "\<exists>new cs d. trace st' = trace st @ new \<and> filter is_check new = cs @ [d]
           \<and> decisive d \<and> filter decisive cs = []"
proof (cases rule: cycle_step_cases [of cfg start c st])
  case hard
  with assms have "trace st' = trace st @ [HardCheck True, Print HardLimitExceeded]" by auto
  then show ?thesis
    by (intro exI [of _ "[HardCheck True, Print HardLimitExceeded]"] exI [of _ "[]"]
        exI [of _ "HardCheck True"]) simp
next
  case blocked
  with assms show ?thesis by simp
next
  case (events st2)
  from read_events_some [OF events(3)] obtain new where
    n: "trace st2 = trace st @ (if hard_sec cfg \<noteq> 0 then [HardCheck False] else []) @ new"
      "list_all forwarded new"
    by auto
  let ?d = "Poll (case returncode st2 of None \<Rightarrow> polled c | Some x \<Rightarrow> Some x)"
  from assms events(4) have st': "st' = poll (polled c) st2"
    and nd: "\<not> (returncode st2 = None \<and> polled c = None)"
    by (auto simp: check_ended_eq split: if_splits)
  from nd have "decisive ?d" by (auto split: option.splits)
  with n st' show ?thesis
    by (intro exI [of _ "(if hard_sec cfg \<noteq> 0 then [HardCheck False] else []) @ new @ [?d]"]
        exI [of _ "if hard_sec cfg \<noteq> 0 then [HardCheck False] else []"] exI [of _ ?d])
      (simp add: forwarded_only)
next
  case idle
  with assms have "trace st' = trace st @ (if hard_sec cfg \<noteq> 0 then [HardCheck False] else [])
      @ [IdleCheck True, Print IdleLimitExceeded]" by auto
  then show ?thesis
    by (intro exI [of _ "(if hard_sec cfg \<noteq> 0 then [HardCheck False] else [])
        @ [IdleCheck True, Print IdleLimitExceeded]"]
        exI [of _ "if hard_sec cfg \<noteq> 0 then [HardCheck False] else []"]
        exI [of _ "IdleCheck True"]) simp
next
  case quiet
  let ?d = "Poll (case returncode st of None \<Rightarrow> polled c | Some x \<Rightarrow> Some x)"
  let ?cs = "(if hard_sec cfg \<noteq> 0 then [HardCheck False] else [])
      @ (if idle_sec cfg \<noteq> 0 then [IdleCheck False] else [])"
  from assms quiet(4)
  have st': "st' = poll (polled c) (passed (IdleCheck False) (idle_sec cfg)
      (passed (HardCheck False) (hard_sec cfg) st))"
    and nd: "\<not> (returncode st = None \<and> polled c = None)"
    by (auto simp: check_ended_eq split: if_splits)
  from nd have "decisive ?d" by (auto split: option.splits)
  moreover from st' have "trace st' = trace st @ ?cs @ [?d]" by simp
  ultimately show ?thesis
    by (intro exI [of _ "?cs @ [?d]"] exI [of _ ?cs] exI [of _ ?d]) simp
qed

lemma cycle_step_quiet:
  "filter intervention (trace (loop_state (cycle_step cfg start c st)))
     = filter intervention (trace st)
   \<and> slept (trace (loop_state (cycle_step cfg start c st))) = slept (trace st)
   \<and> xctest_pid (loop_state (cycle_step cfg start c st)) = xctest_pid st"
proof (cases rule: cycle_step_cases [of cfg start c st])
  case hard
  then show ?thesis by (simp add: loop_state_def)
next
  case blocked
  then show ?thesis by (simp add: loop_state_def)
next
  case (events st2)
  from read_events_some [OF events(3)] obtain new where
    "trace st2 = trace st @ (if hard_sec cfg \<noteq> 0 then [HardCheck False] else []) @ new"
      "list_all forwarded new" "xctest_pid st2 = xctest_pid st"
    by auto
  with events(4) show ?thesis
    by (simp add: loop_state_def check_ended_eq forwarded_only)
next
  case idle
  then show ?thesis by (simp add: loop_state_def)
next
  case quiet
  then show ?thesis by (simp add: loop_state_def check_ended_eq)
qed

lemma cycle_step_end:
  assumes "returncode st = None" and "\<not> timed_out st"
  shows "case cycle_step cfg start c st of
           Continue st' \<Rightarrow> \<not> timed_out st' \<and> returncode st' = None
         | Break st' \<Rightarrow> (timed_out st' \<and> returncode st' = None)
                       \<or> (\<not> timed_out st' \<and> returncode st' = polled c \<and> polled c \<noteq> None)
         | Blocked st' \<Rightarrow> \<not> timed_out st' \<and> returncode st' = None"
proof (cases rule: cycle_step_cases [of cfg start c st])
  case hard
  with assms show ?thesis by simp
next
  case blocked
  with assms show ?thesis by simp
next
  case (events st2)
  from read_events_some [OF events(3)] assms
  have "timed_out st2 = False" "returncode st2 = None" by auto
  with events(4) show ?thesis by (simp add: check_ended_eq)
next
  case idle
  with assms show ?thesis by simp
next
  case quiet
  with assms show ?thesis by (simp add: check_ended_eq)
qed

lemma monitor_continue:
  "monitor cfg start script st = Continue st' \<Longrightarrow>
     (\<exists>new. trace st' = trace st @ new \<and> filter decisive new = [])
     \<and> timed_out st' = timed_out st"
proof (induction script arbitrary: st)
  case Nil
  then show ?case by simp
next
  case (Cons c cs)
  then obtain mid where step: "cycle_step cfg start c st = Continue mid"
    and rest: "monitor cfg start cs mid = Continue st'"
    by (auto split: loop_result.splits)
  from cycle_step_continue [OF step] Cons.IH [OF rest] show ?case by auto
qed

lemma monitor_break:
  "monitor cfg start script st = Break st' \<Longrightarrow>
     \<exists>new cs d. trace st' = trace st @ new \<and> filter is_check new = cs @ [d]
        \<and> decisive d \<and> filter decisive cs = []"
proof (induction script arbitrary: st)
  case Nil
  then show ?case by simp
next
  case (Cons c script)
  show ?case
  proof (cases "cycle_step cfg start c st")
    case (Continue mid)
    with Cons.prems have rest: "monitor cfg start script mid = Break st'" by simp
    from cycle_step_continue [OF Continue] obtain new1
      where n1: "trace mid = trace st @ new1" "filter decisive new1 = []" by blast
    from Cons.IH [OF rest] obtain new2 cs d
      where n2: "trace st' = trace mid @ new2" "filter is_check new2 = cs @ [d]"
        "decisive d" "filter decisive cs = []" by blast
    have "filter decisive (filter is_check new1) = []"
      using n1(2) by (simp only: filter_decisive_checks)
    with n2(4) have "filter decisive (filter is_check new1 @ cs) = []"
      by (simp only: filter_append append_Nil)
    with n1 n2 show ?thesis
      by (intro exI [of _ "new1 @ new2"] exI [of _ "filter is_check new1 @ cs"] exI [of _ d]) simp
  next
    case (Break mid)
    with Cons.prems have "mid = st'" by simp
    with cycle_step_break Break show ?thesis by blast
  next
    case (Blocked mid)
    with Cons.prems show ?thesis by simp
  qed
qed

lemma monitor_append_break:
  "monitor cfg start script st = Break st' \<Longrightarrow> monitor cfg start (script @ later) st = Break st'"
  by (induction script arbitrary: st) (auto split: loop_result.splits)

lemma monitor_append_continue:
  "monitor cfg start script st = Continue st' \<Longrightarrow>
   monitor cfg start (script @ later) st = monitor cfg start later st'"
  by (induction script arbitrary: st) (auto split: loop_result.splits)

lemma monitor_quiet:
  "filter intervention (trace (loop_state (monitor cfg start script st)))
     = filter intervention (trace st)
   \<and> slept (trace (loop_state (monitor cfg start script st))) = slept (trace st)
   \<and> xctest_pid (loop_state (monitor cfg start script st)) = xctest_pid st"
proof (induction script arbitrary: st)
  case Nil
  then show ?case by (simp add: loop_state_def)
next
  case (Cons c script)
  show ?case
  proof (cases "cycle_step cfg start c st")
    case (Continue mid)
    with cycle_step_quiet [of cfg start c st] Cons.IH [of mid] show ?thesis
      by (simp add: loop_state_def)
  next
    case (Break mid)
    with cycle_step_quiet [of cfg start c st] show ?thesis by (simp add: loop_state_def)
  next
    case (Blocked mid)
    with cycle_step_quiet [of cfg start c st] show ?thesis by (simp add: loop_state_def)
  qed
qed

lemma monitor_end:
  assumes "returncode st = None" and "\<not> timed_out st"
  shows "case monitor cfg start script st of
           Continue st' \<Rightarrow> \<not> timed_out st' \<and> returncode st' = None
         | Break st' \<Rightarrow> (timed_out st' \<and> returncode st' = None)
                       \<or> (\<not> timed_out st' \<and> returncode st' \<noteq> None
                           \<and> returncode st' \<in> polled ` set script)
         | Blocked st' \<Rightarrow> \<not> timed_out st' \<and> returncode st' = None"
  using assms
proof (induction script arbitrary: st)
  case Nil
  then show ?case by simp
next
  case (Cons c script)
  note step = cycle_step_end [OF Cons.prems, where cfg = cfg and start = start and c = c]
  show ?case
  proof (cases "cycle_step cfg start c st")
    case (Continue mid)
    with step have "returncode mid = None" "\<not> timed_out mid" by simp_all
    from Cons.IH [OF this] Continue show ?thesis
      by (auto split: loop_result.splits)
  next
    case (Break mid)
    with step show ?thesis by auto
  next
    case (Blocked mid)
    with step show ?thesis by simp
  qed
qed

lemma grace_wait_quiet:
  "filter intervention (trace (grace_wait n answers i st)) = filter intervention (trace st)"
  "notices (trace (grace_wait n answers i st)) = notices (trace st)"
  "filter timeout_check (trace (grace_wait n answers i st)) = filter timeout_check (trace st)"
  "timed_out (grace_wait n answers i st) = timed_out st"
  by (induction n answers i st rule: grace_wait.induct) (simp_all add: Let_def)

lemma grace_wait_returncode:
  "returncode st = None \<Longrightarrow>
   (returncode (grace_wait n answers i st) = None) = list_all (\<lambda>j. answers j = None) [i..<i + n]"
proof (induction n arbitrary: i st)
  case 0
  then show ?case by simp
next
  case (Suc n)
  have range: "[i..<i + Suc n] = i # [Suc i..<Suc i + n]"
    by (simp add: upt_conv_Cons)
  show ?case
  proof (cases "answers i")
    case None
    have "returncode (emit (Sleep (2 / 10)) (poll None st)) = None"
      using Suc.prems by simp
    from Suc.IH [OF this, of "Suc i"] None Suc.prems show ?thesis
      unfolding range by (simp add: Let_def)
  next
    case (Some r)
    with Suc.prems show ?thesis
      unfolding range by (simp add: Let_def)
  qed
qed

lemma grace_wait_slept_bounds:
  "slept (trace st) \<le> slept (trace (grace_wait n answers i st))
   \<and> slept (trace (grace_wait n answers i st)) \<le> slept (trace st) + real n / 5"
proof (induction n arbitrary: i st)
  case 0
  then show ?case by simp
next
  case (Suc n)
  let ?mid = "emit (Sleep (2 / 10)) (poll (answers i) st)"
  have "slept (trace ?mid) = slept (trace st) + 1 / 5" by simp
  with Suc.IH [of ?mid "Suc i"] show ?case
    by (simp add: Let_def field_simps)
qed

lemma grace_wait_slept_full:
  "returncode (grace_wait n answers i st) = None \<Longrightarrow>
   slept (trace (grace_wait n answers i st)) = slept (trace st) + real n / 5"
proof (induction n arbitrary: i st)
  case 0
  then show ?case by simp
next
  case (Suc n)
  let ?mid = "emit (Sleep (2 / 10)) (poll (answers i) st)"
  from Suc.prems have miss: "returncode (poll (answers i) st) = None"
    by (auto simp: Let_def split: if_splits)
  with Suc.prems have "returncode (grace_wait n answers (Suc i) ?mid) = None"
    by (simp add: Let_def)
  from Suc.IH [OF this] miss show ?case
    by (simp add: Let_def field_simps)
qed

lemma sample_stage_fields [simp]:
  "timed_out (sample_stage cfg pid e st) = timed_out st"
  "returncode (sample_stage cfg pid e st) = returncode st"
  "xctest_pid (sample_stage cfg pid e st) = xctest_pid st"
  "slept (trace (sample_stage cfg pid e st)) = slept (trace st)"
  "filter timeout_check (trace (sample_stage cfg pid e st)) = filter timeout_check (trace st)"
  by (simp_all add: sample_stage_def sample_pid_def Let_def
      split: option.splits prod.splits sample_result.splits)

lemma sample_stage_interventions:
  "filter intervention (trace (sample_stage cfg pid e st))
     = filter intervention (trace st) @ sampling cfg pid e (xctest_pid st)"
  by (simp add: sample_stage_def sampling_def sample_pid_def Let_def
      split: option.splits prod.splits sample_result.splits)

lemma kill_tree_final [simp]: "final (kill_tree a sig st) = emit (Killpg sig) st"
  by (simp add: kill_tree_def final_def Let_def split: killpg_result.splits)

lemma kill_tree_raises:
  "kill_tree a sig st = (if a = NotPermitted then Inl (PermissionError, emit (Killpg sig) st)
                         else Inr (emit (Killpg sig) st))"
  by (simp add: kill_tree_def Let_def split: killpg_result.splits)

lemma escalate_eq:
  "escalate cfg pid e st =
     (if killpg_140 e = NoSuchGroup
      then Inl (ProcessLookupError, emit (Killpg SIGTERM) (sample_stage cfg pid e st))
      else if killpg_140 e = NotPermitted
      then Inl (PermissionError, emit (Killpg SIGTERM) (sample_stage cfg pid e st))
      else if returncode (graced cfg pid e st) = None
      then kill_tree (killpg_147 e) SIGKILL (graced cfg pid e st)
      else Inr (graced cfg pid e st))"
  by (simp add: escalate_def graced_def Let_def split: killpg_result.splits)

lemma graced_returncode:
  "returncode st = None \<Longrightarrow> (returncode (graced cfg pid e st) = None) = survives_grace e"
proof -
  assume rc: "returncode st = None"
  let ?st2 = "emit (Killpg SIGTERM) (sample_stage cfg pid e st)"
  have "returncode ?st2 = None" using rc by simp
  from grace_wait_returncode [OF this, of 10 "poll_143 e" 0]
  have g: "(returncode (grace_wait 10 (poll_143 e) 0 ?st2) = None)
            = list_all (\<lambda>j. poll_143 e j = None) [0..<10]" by simp
  show ?thesis
    unfolding graced_def survives_grace_def
    using g by (cases "returncode (grace_wait 10 (poll_143 e) 0 ?st2)") auto
qed

lemma graced_fields:
  "timed_out (graced cfg pid e st) = timed_out st"
  "filter intervention (trace (graced cfg pid e st))
     = filter intervention (trace st) @ sampling cfg pid e (xctest_pid st) @ [Killpg SIGTERM]"
  "filter timeout_check (trace (graced cfg pid e st)) = filter timeout_check (trace st)"
  by (simp_all add: graced_def grace_wait_quiet sample_stage_interventions)

lemma graced_slept:
  "slept (trace st) \<le> slept (trace (graced cfg pid e st))"
  "slept (trace (graced cfg pid e st)) \<le> slept (trace st) + 2"
  "returncode (graced cfg pid e st) = None \<Longrightarrow> slept (trace (graced cfg pid e st)) = slept (trace st) + 2"
proof -
  let ?st2 = "emit (Killpg SIGTERM) (sample_stage cfg pid e st)"
  have base: "slept (trace ?st2) = slept (trace st)" by simp
  from grace_wait_slept_bounds [of ?st2 10 "poll_143 e" 0] base
  show "slept (trace st) \<le> slept (trace (graced cfg pid e st))"
    and "slept (trace (graced cfg pid e st)) \<le> slept (trace st) + 2"
    by (simp_all add: graced_def)
  assume "returncode (graced cfg pid e st) = None"
  then have "returncode (grace_wait 10 (poll_143 e) 0 ?st2) = None"
    by (auto simp: graced_def split: option.splits)
  from grace_wait_slept_full [OF this] base
  show "slept (trace (graced cfg pid e st)) = slept (trace st) + 2"
    by (simp add: graced_def)
qed

lemma terminate_eq:
  "terminate cfg pid e st =
     (if engaged e st
      then (case escalate cfg pid e (poll None st) of
              Inr st' \<Rightarrow> Inr st'
            | Inl (ex, st') \<Rightarrow> kill_tree (killpg_149 e) SIGKILL st')
      else if timed_out st then Inr (poll (poll_125 e) st)
      else Inr st)"
  by (cases "returncode st"; cases "poll_125 e")
    (simp_all add: terminate_def engaged_def Let_def poll_def)

lemma terminate_idle:
  assumes "\<not> engaged e st"
  shows "filter intervention (trace (final (terminate cfg pid e st))) = filter intervention (trace st)"
    and "slept (trace (final (terminate cfg pid e st))) = slept (trace st)"
    and "timed_out (final (terminate cfg pid e st)) = timed_out st"
    and "filter timeout_check (trace (final (terminate cfg pid e st))) = filter timeout_check (trace st)"
    and "\<exists>st'. terminate cfg pid e st = Inr st'"
    and "returncode st \<noteq> None \<Longrightarrow> returncode (final (terminate cfg pid e st)) = returncode st"
  using assms by (auto simp: terminate_eq final_def)

lemma terminate_engaged:
  assumes "engaged e st"
  shows "filter intervention (trace (final (terminate cfg pid e st)))
           = filter intervention (trace st) @ sampling cfg pid e (xctest_pid st)
               @ map Killpg (SIGTERM # after_sigterm e)"
    and "timed_out (final (terminate cfg pid e st)) = timed_out st"
    and "filter timeout_check (trace (final (terminate cfg pid e st))) = filter timeout_check (trace st)"
    and "(\<exists>x. terminate cfg pid e st = Inl x) \<longleftrightarrow>
           killpg_149 e = NotPermitted
           \<and> (killpg_140 e \<noteq> Delivered \<or> survives_grace e \<and> killpg_147 e = NotPermitted)"
    and "terminate cfg pid e st = Inl (ex, st') \<Longrightarrow> ex = PermissionError"
proof -
  let ?st0 = "poll None st"
  from assms have rc: "returncode ?st0 = None" by (simp add: engaged_def)
  note g = graced_returncode [OF rc, of cfg pid e]
  have proj: "filter intervention (trace ?st0) = filter intervention (trace st)"
    "filter timeout_check (trace ?st0) = filter timeout_check (trace st)"
    "xctest_pid ?st0 = xctest_pid st" "timed_out ?st0 = timed_out st"
    by simp_all
  note gf = graced_fields [of cfg pid e ?st0, unfolded proj]
  consider (gone) "killpg_140 e = NoSuchGroup" | (denied) "killpg_140 e = NotPermitted"
    | (survived) "killpg_140 e = Delivered" "survives_grace e"
    | (reaped) "killpg_140 e = Delivered" "\<not> survives_grace e"
    by (cases "killpg_140 e") auto
  then have "filter intervention (trace (final (terminate cfg pid e st)))
           = filter intervention (trace st) @ sampling cfg pid e (xctest_pid st)
               @ map Killpg (SIGTERM # after_sigterm e)
     \<and> timed_out (final (terminate cfg pid e st)) = timed_out st
     \<and> filter timeout_check (trace (final (terminate cfg pid e st))) = filter timeout_check (trace st)
     \<and> ((\<exists>x. terminate cfg pid e st = Inl x) \<longleftrightarrow>
           killpg_149 e = NotPermitted
           \<and> (killpg_140 e \<noteq> Delivered \<or> survives_grace e \<and> killpg_147 e = NotPermitted))
     \<and> (terminate cfg pid e st = Inl (ex, st') \<longrightarrow> ex = PermissionError)"
  proof cases
    case gone
    with assms show ?thesis
      by (simp add: terminate_eq escalate_eq kill_tree_raises final_def after_sigterm_def
          sample_stage_interventions)
  next
    case denied
    with assms show ?thesis
      by (simp add: terminate_eq escalate_eq kill_tree_raises final_def after_sigterm_def
          sample_stage_interventions)
  next
    case survived
    with g have "returncode (graced cfg pid e ?st0) = None" by simp
    with assms survived gf show ?thesis
      by (simp add: terminate_eq escalate_eq kill_tree_raises final_def after_sigterm_def)
  next
    case reaped
    with g have "returncode (graced cfg pid e ?st0) \<noteq> None" by simp
    with assms reaped gf show ?thesis
      by (simp add: terminate_eq escalate_eq kill_tree_raises final_def after_sigterm_def)
  qed
  then show "filter intervention (trace (final (terminate cfg pid e st)))
           = filter intervention (trace st) @ sampling cfg pid e (xctest_pid st)
               @ map Killpg (SIGTERM # after_sigterm e)"
    and "timed_out (final (terminate cfg pid e st)) = timed_out st"
    and "filter timeout_check (trace (final (terminate cfg pid e st))) = filter timeout_check (trace st)"
    and "(\<exists>x. terminate cfg pid e st = Inl x) \<longleftrightarrow>
           killpg_149 e = NotPermitted
           \<and> (killpg_140 e \<noteq> Delivered \<or> survives_grace e \<and> killpg_147 e = NotPermitted)"
    and "terminate cfg pid e st = Inl (ex, st') \<Longrightarrow> ex = PermissionError"
    by blast+
qed

lemma terminate_slept:
  "slept (trace st) \<le> slept (trace (final (terminate cfg pid e st)))"
  "slept (trace (final (terminate cfg pid e st))) \<le> slept (trace st) + 2"
  "\<not> engaged e st \<or> killpg_140 e \<noteq> Delivered \<Longrightarrow>
     slept (trace (final (terminate cfg pid e st))) = slept (trace st)"
  "engaged e st \<Longrightarrow> killpg_140 e = Delivered \<Longrightarrow> survives_grace e \<Longrightarrow>
     slept (trace (final (terminate cfg pid e st))) = slept (trace st) + 2"
proof -
  let ?st0 = "poll None st"
  have base: "slept (trace ?st0) = slept (trace st)" by simp
  note gs = graced_slept [where st = ?st0 and cfg = cfg and pid = pid and e = e, unfolded base]
  have all: "slept (trace st) \<le> slept (trace (final (terminate cfg pid e st)))
    \<and> slept (trace (final (terminate cfg pid e st))) \<le> slept (trace st) + 2
    \<and> (\<not> engaged e st \<or> killpg_140 e \<noteq> Delivered \<longrightarrow>
         slept (trace (final (terminate cfg pid e st))) = slept (trace st))
    \<and> (engaged e st \<and> killpg_140 e = Delivered \<and> survives_grace e \<longrightarrow>
         slept (trace (final (terminate cfg pid e st))) = slept (trace st) + 2)"
  proof (cases "engaged e st")
    case False
    with terminate_idle(2) [OF False, of cfg pid] show ?thesis by simp
  next
    case True
    then have rc: "returncode ?st0 = None" by (simp add: engaged_def)
    note g = graced_returncode [OF rc, of cfg pid e]
    show ?thesis
    proof (cases "killpg_140 e")
      case Delivered
      show ?thesis
      proof (cases "survives_grace e")
        case True
        with g have none: "returncode (graced cfg pid e ?st0) = None" by simp
        with \<open>engaged e st\<close> Delivered True gs(3) [OF none] show ?thesis
          by (simp add: terminate_eq escalate_eq kill_tree_raises final_def)
      next
        case False
        with g obtain r where "returncode (graced cfg pid e ?st0) = Some r" by auto
        with \<open>engaged e st\<close> Delivered False gs(1,2) show ?thesis
          by (simp add: terminate_eq escalate_eq final_def)
      qed
    next
      case NoSuchGroup
      with True show ?thesis
        by (simp add: terminate_eq escalate_eq kill_tree_raises final_def)
    next
      case NotPermitted
      with True show ?thesis
        by (simp add: terminate_eq escalate_eq kill_tree_raises final_def)
    qed
  qed
  from all show "slept (trace st) \<le> slept (trace (final (terminate cfg pid e st)))"
    and "slept (trace (final (terminate cfg pid e st))) \<le> slept (trace st) + 2"
    by simp_all
  from all show "\<not> engaged e st \<or> killpg_140 e \<noteq> Delivered \<Longrightarrow>
     slept (trace (final (terminate cfg pid e st))) = slept (trace st)"
    by blast
  from all show "engaged e st \<Longrightarrow> killpg_140 e = Delivered \<Longrightarrow> survives_grace e \<Longrightarrow>
     slept (trace (final (terminate cfg pid e st))) = slept (trace st) + 2"
    by blast
qed

lemma terminate_survived_trace:
  assumes "engaged e st" and "killpg_140 e = Delivered" and "survives_grace e"
  shows "\<exists>rest. trace (final (terminate cfg pid e st))
           = trace (graced cfg pid e (poll None st)) @ Killpg SIGKILL # rest"
proof -
  from assms(1) have "returncode (poll None st) = None" by (simp add: engaged_def)
  from graced_returncode [OF this, of cfg pid e] assms(3)
  have "returncode (graced cfg pid e (poll None st)) = None" by simp
  with assms show ?thesis
    by (simp add: terminate_eq escalate_eq kill_tree_raises final_def)
qed

lemma takeWhile_until: "x \<notin> set xs \<Longrightarrow> takeWhile (\<lambda>a. a \<noteq> x) (xs @ x # ys) = xs"
  by (induction xs) auto

lemma signal_mem: "Killpg s \<in> set tr \<longleftrightarrow> s \<in> set (signals tr)"
proof (induction tr)
  case Nil
  then show ?case by simp
next
  case (Cons a tr)
  then show ?case by (cases a) auto
qed

lemma signals_interventions: "signals (filter intervention tr) = signals tr"
proof (induction tr)
  case Nil
  then show ?case by simp
next
  case (Cons a tr)
  then show ?case by (cases a) simp_all
qed

lemma signals_sampling [simp]: "signals (sampling cfg pid e xp) = []"
  by (simp add: sampling_def split: option.splits prod.splits)

lemma signals_map_Killpg [simp]: "signals (map Killpg ss) = ss"
  by (induction ss) simp_all

lemma drain_trace:
  "trace (drain e st) = trace st @ Communicate 3 #
     (case communicate_153 e of
        DrainRaised \<Rightarrow> []
      | Drained out err rc \<Rightarrow>
          (if out \<noteq> [] then [Forward Stdout out] else [])
          @ (if err \<noteq> [] then [Forward Stderr err] else []))"
  by (simp add: drain_def Let_def split: drain_result.splits)

lemma drain_fields [simp]:
  "timed_out (drain e st) = timed_out st"
  "filter intervention (trace (drain e st)) = filter intervention (trace st)"
  "filter timeout_check (trace (drain e st)) = filter timeout_check (trace st)"
  "slept (trace (drain e st)) = slept (trace st)"
  by (simp_all add: drain_def Let_def split: drain_result.splits)

lemma drain_returncode:
  "returncode (drain e st) =
     (case returncode st of
        Some r \<Rightarrow> Some r
      | None \<Rightarrow> (case communicate_153 e of DrainRaised \<Rightarrow> None | Drained out err rc \<Rightarrow> Some rc))"
  by (simp add: drain_def Let_def split: drain_result.splits option.splits)

lemma after_loop_eq:
  "after_loop cfg pid e st =
     (case terminate cfg pid e st of
        Inl (ex, st') \<Rightarrow> (Raises ex, st')
      | Inr st' \<Rightarrow> (Returns (exit_code (drain e st')), drain e st'))"
  by (simp add: after_loop_def Let_def split: sum.splits prod.splits)

lemma after_loop_proj:
  "filter intervention (trace (snd (after_loop cfg pid e st)))
     = filter intervention (trace (final (terminate cfg pid e st)))"
  "filter timeout_check (trace (snd (after_loop cfg pid e st)))
     = filter timeout_check (trace (final (terminate cfg pid e st)))"
  "slept (trace (snd (after_loop cfg pid e st))) = slept (trace (final (terminate cfg pid e st)))"
  "timed_out (snd (after_loop cfg pid e st)) = timed_out (final (terminate cfg pid e st))"
  by (simp_all add: after_loop_eq final_def split: sum.splits prod.splits)

lemma terminate_timed_out: "timed_out (final (terminate cfg pid e st)) = timed_out st"
  using terminate_idle(3) [of e st cfg pid] terminate_engaged(2) [of e st cfg pid] by blast

lemma terminate_timeout_checks:
  "filter timeout_check (trace (final (terminate cfg pid e st))) = filter timeout_check (trace st)"
  using terminate_idle(4) [of e st cfg pid] terminate_engaged(3) [of e st cfg pid] by blast

lemma initial_fields [simp]:
  "trace (initial start) = []" "\<not> timed_out (initial start)" "returncode (initial start) = None"
  "xctest_pid (initial start) = None" "last_at (initial start) = start"
  by (simp_all add: initial_def)

lemma run_cases [case_names still blocked timeout exit]:
  obtains st where "monitor cfg start script (initial start) = Continue st"
      "run_with_timeouts cfg pid start script e = (StillRunning, st)"
      "\<not> timed_out st" "returncode st = None"
  | st where "monitor cfg start script (initial start) = Blocked st"
      "run_with_timeouts cfg pid start script e = (BlockedInReadline, st)"
      "\<not> timed_out st" "returncode st = None"
  | st where "monitor cfg start script (initial start) = Break st"
      "run_with_timeouts cfg pid start script e = after_loop cfg pid e st"
      "timed_out st" "returncode st = None"
  | st n where "monitor cfg start script (initial start) = Break st"
      "run_with_timeouts cfg pid start script e = after_loop cfg pid e st"
      "\<not> timed_out st" "returncode st = Some n" "Some n \<in> polled ` set script"
proof -
  have "returncode (initial start) = None" "\<not> timed_out (initial start)" by simp_all
  note ends = monitor_end [OF this, where cfg = cfg and start = start and script = script]
  show ?thesis
  proof (cases "monitor cfg start script (initial start)")
    case (Continue st)
    with ends that(1) [of st] show ?thesis by (simp add: run_with_timeouts_def)
  next
    case (Blocked st)
    with ends that(2) [of st] show ?thesis by (simp add: run_with_timeouts_def)
  next
    case (Break st)
    with ends consider "timed_out st" "returncode st = None"
      | "\<not> timed_out st" "returncode st \<noteq> None" "returncode st \<in> polled ` set script"
      by auto
    then show ?thesis
    proof cases
      case 1
      with Break that(3) [of st] show ?thesis by (simp add: run_with_timeouts_def)
    next
      case 2
      then obtain n where "returncode st = Some n" by auto
      with 2 Break that(4) [of st n] show ?thesis by (simp add: run_with_timeouts_def)
    qed
  qed
qed

lemma loop_quiet_initial:
  "filter intervention (trace (loop_state (monitor cfg start script (initial start)))) = []"
  "slept (trace (loop_state (monitor cfg start script (initial start)))) = 0"
  "xctest_pid (loop_state (monitor cfg start script (initial start))) = None"
  using monitor_quiet [of cfg start script "initial start"] by simp_all

lemmas run_unfold =
  run_with_timeouts_def initial_def cycle_step_def hard_limit_exceeded_def
  idle_limit_exceeded_def passed_def record_timeout_def check_ended_def poll_def emit_def
  after_loop_def terminate_def escalate_def sample_stage_def sample_target_def sample_pid_def
  pid_exists_def kill_tree_def drain_def exit_code_def capture_pid_same
  idle_only_def hard_only_def eof_cycle_def silent_cycle_def late_exit_def calm_def

lemma monitor_blocked:
  "monitor cfg start script st = Blocked st' \<Longrightarrow>
     \<exists>new. trace st' = trace st @ new \<and> filter decisive new = []"
proof (induction script arbitrary: st)
  case Nil
  then show ?case by simp
next
  case (Cons c script)
  show ?case
  proof (cases "cycle_step cfg start c st")
    case (Continue mid)
    with Cons.prems have rest: "monitor cfg start script mid = Blocked st'" by simp
    from cycle_step_continue [OF Continue] Cons.IH [OF rest] show ?thesis by auto
  next
    case (Break mid)
    with Cons.prems show ?thesis by simp
  next
    case (Blocked mid)
    with Cons.prems have mid: "mid = st'" by simp
    have "trace mid = trace st @ (if hard_sec cfg \<noteq> 0 then [HardCheck False] else [])"
    proof (cases rule: cycle_step_cases [of cfg start c st])
      case hard
      with Blocked show ?thesis by simp
    next
      case blocked
      with Blocked show ?thesis by auto
    next
      case (events st2)
      with Blocked show ?thesis by (simp add: check_ended_eq split: if_splits)
    next
      case idle
      with Blocked show ?thesis by simp
    next
      case quiet
      with Blocked show ?thesis by (simp add: check_ended_eq split: if_splits)
    qed
    with mid show ?thesis by auto
  qed
qed

lemma after_loop_trace_ext:
  "\<exists>rest. trace (snd (after_loop cfg pid e st)) = trace (final (terminate cfg pid e st)) @ rest"
  by (auto simp: after_loop_eq final_def drain_trace split: sum.splits prod.splits)

lemma run_state_cases [case_names unfinished timeout exit]:
  obtains "\<not> timed_out (snd (run_with_timeouts cfg pid start script e))"
      "filter intervention (trace (snd (run_with_timeouts cfg pid start script e))) = []"
      "slept (trace (snd (run_with_timeouts cfg pid start script e))) = 0"
      "fst (run_with_timeouts cfg pid start script e) = StillRunning
       \<or> fst (run_with_timeouts cfg pid start script e) = BlockedInReadline"
  | st where "timed_out st" "returncode st = None" "xctest_pid st = None"
      "filter intervention (trace st) = []" "slept (trace st) = 0"
      "run_with_timeouts cfg pid start script e = after_loop cfg pid e st"
  | st n where "\<not> timed_out st" "returncode st = Some n" "\<not> engaged e st"
      "filter intervention (trace st) = []" "slept (trace st) = 0"
      "run_with_timeouts cfg pid start script e = after_loop cfg pid e st"
proof (cases rule: run_cases [of cfg start script pid e])
  case (still st)
  with loop_quiet_initial(1,2) [of cfg start script] that(1) show ?thesis
    by (simp add: loop_state_def)
next
  case (blocked st)
  with loop_quiet_initial(1,2) [of cfg start script] that(1) show ?thesis
    by (simp add: loop_state_def)
next
  case (timeout st)
  with loop_quiet_initial [of cfg start script] that(2) [of st] show ?thesis
    by (simp add: loop_state_def)
next
  case (exit st n)
  with loop_quiet_initial [of cfg start script] that(3) [of st n] show ?thesis
    by (simp add: loop_state_def engaged_def)
qed

lemma run_interventions:
  "filter intervention (trace (snd (run_with_timeouts cfg pid start script e)))
     = (if timed_out (snd (run_with_timeouts cfg pid start script e)) \<and> poll_125 e = None
        then sampling cfg pid e None @ map Killpg (SIGTERM # after_sigterm e)
        else [])"
proof (cases rule: run_state_cases [of cfg pid start script e])
  case unfinished
  then show ?thesis by simp
next
  case (timeout st)
  have t: "timed_out (snd (after_loop cfg pid e st))"
    using timeout(1) by (simp add: after_loop_proj terminate_timed_out)
  show ?thesis
  proof (cases "poll_125 e = None")
    case True
    with timeout have eng: "engaged e st" by (simp add: engaged_def)
    from terminate_engaged(1) [OF eng, of cfg pid] timeout t True show ?thesis
      by (simp add: after_loop_proj)
  next
    case False
    then have "\<not> engaged e st" by (simp add: engaged_def)
    from terminate_idle(1) [OF this, of cfg pid] timeout False show ?thesis
      by (simp add: after_loop_proj)
  qed
next
  case (exit st n)
  have "\<not> timed_out (snd (after_loop cfg pid e st))"
    using exit(1) by (simp add: after_loop_proj terminate_timed_out)
  with terminate_idle(1) [OF exit(3), of cfg pid] exit show ?thesis
    by (simp add: after_loop_proj)
qed

lemma run_slept:
  "0 \<le> slept (trace (snd (run_with_timeouts cfg pid start script e)))"
  "slept (trace (snd (run_with_timeouts cfg pid start script e))) \<le> 2"
  "\<not> (timed_out (snd (run_with_timeouts cfg pid start script e)) \<and> poll_125 e = None)
     \<or> killpg_140 e \<noteq> Delivered \<Longrightarrow>
   slept (trace (snd (run_with_timeouts cfg pid start script e))) = 0"
proof -
  let ?run = "run_with_timeouts cfg pid start script e"
  have "0 \<le> slept (trace (snd ?run)) \<and> slept (trace (snd ?run)) \<le> 2
    \<and> (\<not> (timed_out (snd ?run) \<and> poll_125 e = None) \<or> killpg_140 e \<noteq> Delivered
         \<longrightarrow> slept (trace (snd ?run)) = 0)"
  proof (cases rule: run_state_cases [of cfg pid start script e])
    case unfinished
    then show ?thesis by simp
  next
    case (timeout st)
    have t: "timed_out (snd (after_loop cfg pid e st))"
      using timeout(1) by (simp add: after_loop_proj terminate_timed_out)
    have eng: "engaged e st \<longleftrightarrow> poll_125 e = None"
      using timeout by (simp add: engaged_def)
    from terminate_slept(1,2) [where st = st and cfg = cfg and pid = pid and e = e]
      terminate_slept(3) [where st = st and cfg = cfg and pid = pid and e = e]
      timeout t eng
    show ?thesis by (auto simp: after_loop_proj)
  next
    case (exit st n)
    from terminate_slept(3) [where st = st and cfg = cfg and pid = pid and e = e] exit
    show ?thesis
      by (simp add: after_loop_proj)
  qed
  then show "0 \<le> slept (trace (snd ?run))" and "slept (trace (snd ?run)) \<le> 2"
    and "\<not> (timed_out (snd ?run) \<and> poll_125 e = None) \<or> killpg_140 e \<noteq> Delivered \<Longrightarrow>
      slept (trace (snd ?run)) = 0"
    by blast+
qed

lemma run_grace_before_kill:
  assumes "timed_out (snd (run_with_timeouts cfg pid start script e))"
    and "poll_125 e = None" and "killpg_140 e = Delivered" and "survives_grace e"
  shows "slept (takeWhile (\<lambda>a. a \<noteq> Killpg SIGKILL)
           (trace (snd (run_with_timeouts cfg pid start script e)))) = 2"
proof (cases rule: run_state_cases [of cfg pid start script e])
  case unfinished
  with assms show ?thesis by simp
next
  case (exit st n)
  with assms show ?thesis by (simp add: after_loop_proj terminate_timed_out)
next
  case (timeout st)
  with assms have eng: "engaged e st" by (simp add: engaged_def)
  let ?g = "graced cfg pid e (poll None st)"
  from terminate_survived_trace [OF eng assms(3,4), of cfg pid] obtain r1 where
    r1: "trace (final (terminate cfg pid e st)) = trace ?g @ Killpg SIGKILL # r1" by blast
  from after_loop_trace_ext [of cfg pid e st] obtain r2 where
    r2: "trace (snd (after_loop cfg pid e st)) = trace (final (terminate cfg pid e st)) @ r2"
    by blast
  have tr: "trace (snd (after_loop cfg pid e st)) = trace ?g @ Killpg SIGKILL # (r1 @ r2)"
    using r1 r2 by simp
  have "signals (trace ?g) = signals (filter intervention (trace ?g))"
    by (simp only: signals_interventions)
  also have "\<dots> = [SIGTERM]"
    using timeout(3,4) by (simp add: graced_fields)
  finally have "SIGKILL \<notin> set (signals (trace ?g))" by simp
  then have nok: "Killpg SIGKILL \<notin> set (trace ?g)" by (simp add: signal_mem)
  have rc: "returncode (poll None st) = None" using timeout(2) by simp
  from graced_returncode [OF rc, of cfg pid e] assms(4)
  have "returncode ?g = None" by simp
  from graced_slept(3) [OF this] timeout(5) have "slept (trace ?g) = 2" by simp
  with takeWhile_until [OF nok, of "r1 @ r2"] tr timeout(6) show ?thesis by simp
qed

lemmas env_unfold =
  group_gone_def group_denied_def drain_fails_def stubborn_def sampling_on_def

lemma sample_stage_drain_irrelevant:
  "sample_stage cfg pid (e\<lparr>communicate_153 := d\<rparr>) st = sample_stage cfg pid e st"
  by (simp add: sample_stage_def sample_target_def pid_exists_def sample_pid_def Let_def
      split: option.splits prod.splits sample_result.splits)

lemma escalate_drain_irrelevant:
  "escalate cfg pid (e\<lparr>communicate_153 := d\<rparr>) st = escalate cfg pid e st"
  by (simp add: escalate_def sample_stage_drain_irrelevant Let_def
      split: killpg_result.splits)

lemma terminate_drain_irrelevant:
  "terminate cfg pid (e\<lparr>communicate_153 := d\<rparr>) st = terminate cfg pid e st"
  by (simp add: terminate_def escalate_drain_irrelevant Let_def
      split: sum.splits prod.splits)

lemma drain_exit_code:
  "timed_out st \<or> returncode st \<noteq> None \<Longrightarrow> exit_code (drain e st) = exit_code st"
  by (auto simp: exit_code_def drain_returncode split: option.splits)

subsection \<open>The idle limit\<close>

text \<open>
  C1. The claim: a child that is silent for longer than the idle limit while it is still
  running is timed out and the run returns 124, also when the child has closed both of
  its streams. With an idle limit of 2 seconds, a child that has closed both streams and
  exits with 0 after 4 seconds is never compared against the limit, and the run returns 0;
  the same child with its streams open is timed out in the third turn.
\<close>

theorem C1_idle_limit_missed_at_eof:
  "run_with_timeouts idle_only 500 0
     [eof_cycle 1 None, eof_cycle 2 None, eof_cycle 3 None, eof_cycle 4 (Some 0)] calm
   = (Returns 0,
      \<lparr>last_at = 0, xctest_pid = None, timed_out = False, returncode = Some 0,
       trace = [Poll None, Poll None, Poll None, Poll (Some 0), Communicate 3]\<rparr>)
  \<and> fst (run_with_timeouts idle_only 500 0
     [silent_cycle 1 None, silent_cycle 2 None, silent_cycle 3 None, silent_cycle 4 (Some 0)] calm)
   = Returns 124"
  by (simp add: run_with_timeouts_def idle_only_def eof_cycle_def silent_cycle_def calm_def
      initial_def cycle_step_def hard_limit_exceeded_def idle_limit_exceeded_def passed_def
      record_timeout_def check_ended_def poll_def emit_def after_loop_def
      terminate_def escalate_def sample_stage_def kill_tree_def drain_def exit_code_def
      eval_nat_numeral)

subsection \<open>The hard limit\<close>

text \<open>
  C2, as stated: every run whose elapsed time exceeds the hard limit is timed out and
  returns 124. With a hard limit of 5 seconds, a turn that starts at 4.5 seconds, reads a
  line at 5.2 seconds and then finds the child gone ends the run with the child's code 0:
  the comparison of line 68 is made once, at the start of a turn.
\<close>

theorem C2_counterexample:
  "run_with_timeouts hard_only 500 0 [late_exit] calm
     = (Returns 0,
        \<lparr>last_at = 52 / 10, xctest_pid = None, timed_out = False, returncode = Some 0,
         trace = [HardCheck False, Forward Stdout ''done'', Poll (Some 0), Communicate 3]\<rparr>)
   \<and> last_at (snd (run_with_timeouts hard_only 500 0 [late_exit] calm)) - 0
        > real_of_int (hard_sec hard_only)"
  by (simp add: run_unfold)

text \<open>
  C2, amended: in every turn of the loop that starts with the clock more than \<open>hard_sec\<close>
  (not 0) after the start, the hard timeout is recorded before \<open>select\<close> and before
  the idle comparison, whatever these would give, and the loop is left at once; no earlier
  turn has recorded anything. If the child is still running at line 125 the first signal
  to its group is \<open>SIGTERM\<close>. The run returns 124, unless the \<open>SIGKILL\<close> of line 149
  is refused with \<open>PermissionError\<close>, which reaches the caller.
\<close>

theorem C2_hard_limit_at_turn_start:
  assumes "monitor cfg start before (initial start) = Continue st"
    and "hard_limit_exceeded cfg start c"
  shows "monitor cfg start (before @ c # later) (initial start)
           = Break (record_timeout (HardCheck True) HardLimitExceeded st)
    \<and> trace (record_timeout (HardCheck True) HardLimitExceeded st)
           = trace st @ [HardCheck True, Print HardLimitExceeded]
    \<and> filter decisive (trace st) = []
    \<and> (fst (run_with_timeouts cfg pid start (before @ c # later) e) = Returns 124
        \<or> fst (run_with_timeouts cfg pid start (before @ c # later) e) = Raises PermissionError
           \<and> killpg_149 e = NotPermitted)
    \<and> signals (trace (snd (run_with_timeouts cfg pid start (before @ c # later) e)))
           = (if poll_125 e = None then SIGTERM # after_sigterm e else [])"
proof -
  let ?st' = "record_timeout (HardCheck True) HardLimitExceeded st"
  let ?run = "run_with_timeouts cfg pid start (before @ c # later) e"
  from assms(2) have step: "cycle_step cfg start c st = Break ?st'"
    by (simp add: cycle_step_def)
  with monitor_append_continue [OF assms(1), of "c # later"]
  have loop: "monitor cfg start (before @ c # later) (initial start) = Break ?st'"
    by simp
  from monitor_continue [OF assms(1)] have quiet: "filter decisive (trace st) = []"
    by auto
  have "returncode (initial start) = None" "\<not> timed_out (initial start)" by simp_all
  from monitor_end [OF this, where cfg = cfg and start = start and script = before] assms(1)
  have rc: "returncode st = None" by simp
  from monitor_quiet [of cfg start before "initial start"] assms(1)
  have inter: "filter intervention (trace st) = []" by (simp add: loop_state_def)
  have run: "?run = after_loop cfg pid e ?st'"
    using loop by (simp add: run_with_timeouts_def)
  have inter': "filter intervention (trace ?st') = []" using inter by simp
  have verdict: "fst ?run = Returns 124
        \<or> fst ?run = Raises PermissionError \<and> killpg_149 e = NotPermitted"
  proof (cases "terminate cfg pid e ?st'")
    case (Inr fin)
    have "timed_out (final (terminate cfg pid e ?st'))" by (simp add: terminate_timed_out)
    with Inr have "timed_out fin" by (simp add: final_def)
    with Inr run show ?thesis by (simp add: after_loop_eq exit_code_def)
  next
    case (Inl x)
    obtain ex fin where x: "x = (ex, fin)" by (cases x)
    have eng: "engaged e ?st'"
      using Inl terminate_idle(5) [of e ?st' cfg pid] by auto
    from terminate_engaged(4) [OF eng, of cfg pid] Inl
    have "killpg_149 e = NotPermitted" by blast
    moreover from terminate_engaged(5) [OF eng, of cfg pid ex fin] Inl x
    have "ex = PermissionError" by simp
    ultimately show ?thesis using Inl x run by (simp add: after_loop_eq)
  qed
  have sig: "signals (trace (snd ?run)) = (if poll_125 e = None then SIGTERM # after_sigterm e else [])"
  proof (cases "poll_125 e = None")
    case True
    with rc have eng: "engaged e ?st'" by (simp add: engaged_def)
    have "signals (trace (snd ?run)) = signals (filter intervention (trace (snd ?run)))"
      by (simp only: signals_interventions)
    also have "\<dots> = signals (filter intervention (trace (final (terminate cfg pid e ?st'))))"
      by (simp only: run after_loop_proj)
    also have "\<dots> = SIGTERM # after_sigterm e"
      by (simp add: terminate_engaged(1) [OF eng] inter' del: record_timeout_fields)
    finally show ?thesis using True by simp
  next
    case False
    then have eng: "\<not> engaged e ?st'" by (simp add: engaged_def)
    have "signals (trace (snd ?run)) = signals (filter intervention (trace (snd ?run)))"
      by (simp only: signals_interventions)
    also have "\<dots> = signals (filter intervention (trace (final (terminate cfg pid e ?st'))))"
      by (simp only: run after_loop_proj)
    also have "\<dots> = []"
      by (simp add: terminate_idle(1) [OF eng] inter' del: record_timeout_fields)
    finally show ?thesis using False by simp
  qed
  from loop quiet verdict sig show ?thesis by simp
qed

theorem C2_hard_limit_at_turn_start_witness:
  "monitor hard_only 0 [silent_cycle 1 None] (initial 0)
     = Continue \<lparr>last_at = 0, xctest_pid = None, timed_out = False, returncode = None,
                 trace = [HardCheck False, Poll None]\<rparr>
   \<and> hard_limit_exceeded hard_only 0 (silent_cycle 6 None)
   \<and> fst (run_with_timeouts hard_only 500 0 [silent_cycle 1 None, silent_cycle 6 None] calm)
       = Returns 124
   \<and> signals (trace (snd (run_with_timeouts hard_only 500 0
         [silent_cycle 1 None, silent_cycle 6 None] calm))) = [SIGTERM]"
proof -
  let ?st = "\<lparr>last_at = 0, xctest_pid = None, timed_out = False, returncode = None,
              trace = [HardCheck False, Poll None]\<rparr>"
  have h1: "monitor hard_only 0 [silent_cycle 1 None] (initial 0) = Continue ?st"
    by (simp add: run_unfold)
  have h2: "hard_limit_exceeded hard_only 0 (silent_cycle 6 None)"
    by (simp add: run_unfold)
  have env: "killpg_149 calm \<noteq> NotPermitted" "poll_125 calm = None" "after_sigterm calm = []"
    by (simp_all add: calm_def after_sigterm_def survives_grace_def eval_nat_numeral)
  from C2_hard_limit_at_turn_start [OF h1 h2, of "[]" 500 calm] h1 h2 env
  show ?thesis by simp
qed

subsection \<open>The exit code\<close>

text \<open>
  C3, as stated: the code returned is 124 exactly when a timeout was recorded. A child
  that exits with 124 by itself makes the run return 124 with no timeout recorded.
\<close>

theorem C3_counterexample:
  "fst (run_with_timeouts idle_only 500 0 [silent_cycle 1 (Some 124)] calm) = Returns 124
   \<and> \<not> timed_out (snd (run_with_timeouts idle_only 500 0 [silent_cycle 1 (Some 124)] calm))
   \<and> trace (snd (run_with_timeouts idle_only 500 0 [silent_cycle 1 (Some 124)] calm))
       = [IdleCheck False, Poll (Some 124), Communicate 3]"
  by (simp add: run_unfold)

text \<open>
  C3, amended: a run that returns has returned 124 if a timeout was recorded (whatever
  the child's own code is by then), and otherwise the code the child was polled with in
  the loop, unchanged; that code may itself be 124.
\<close>

theorem C3_exit_code:
  assumes "run_with_timeouts cfg pid start script e = (Returns n, st)"
  shows "(timed_out st \<and> n = 124)
         \<or> (\<not> timed_out st \<and> returncode st = Some n \<and> Some n \<in> polled ` set script)"
proof (cases rule: run_cases [of cfg start script pid e])
  case (still st0)
  with assms show ?thesis by simp
next
  case (blocked st0)
  with assms show ?thesis by simp
next
  case (timeout st0)
  show ?thesis
  proof (cases "terminate cfg pid e st0")
    case (Inl x)
    with assms timeout(2) show ?thesis by (simp add: after_loop_eq split: prod.splits)
  next
    case (Inr fin)
    from terminate_timed_out [of cfg pid e st0] Inr timeout(3)
    have "timed_out fin" by (simp add: final_def)
    with assms timeout(2) Inr show ?thesis
      by (auto simp: after_loop_eq exit_code_def)
  qed
next
  case (exit st0 n0)
  then have idle: "\<not> engaged e st0" by (simp add: engaged_def)
  with exit have quiet: "terminate cfg pid e st0 = Inr st0" by (simp add: terminate_eq)
  have "returncode (drain e st0) = Some n0" using exit(4) by (simp add: drain_returncode)
  moreover have "\<not> timed_out (drain e st0)" using exit(3) by simp
  ultimately have "exit_code (drain e st0) = n0" by (simp add: exit_code_def)
  with assms exit quiet \<open>returncode (drain e st0) = Some n0\<close> \<open>\<not> timed_out (drain e st0)\<close>
  show ?thesis by (auto simp: after_loop_eq)
qed

theorem C3_exit_code_witness:
  "run_with_timeouts idle_only 500 0 [silent_cycle 1 (Some 7)] calm
     = (Returns 7,
        \<lparr>last_at = 0, xctest_pid = None, timed_out = False, returncode = Some 7,
         trace = [IdleCheck False, Poll (Some 7), Communicate 3]\<rparr>)
   \<and> Some 7 \<in> polled ` set [silent_cycle 1 (Some 7)]"
proof -
  let ?st = "\<lparr>last_at = 0, xctest_pid = None, timed_out = False, returncode = Some 7,
              trace = [IdleCheck False, Poll (Some 7), Communicate 3]\<rparr>"
  have run: "run_with_timeouts idle_only 500 0 [silent_cycle 1 (Some 7)] calm = (Returns 7, ?st)"
    by (simp add: run_unfold)
  from C3_exit_code [OF run] run show ?thesis by simp
qed

subsection \<open>Escalation\<close>

text \<open>
  C5, as stated: \<open>SIGKILL\<close> is sent only if the child is still alive after the grace
  wait. When the \<open>SIGTERM\<close> call of line 140 raises (here \<open>ProcessLookupError\<close>), the
  handler of line 148 sends \<open>SIGKILL\<close> at once: no poll and no sleep lies between the
  two calls.
\<close>

theorem C5_counterexample:
  "run_with_timeouts idle_only 500 0
     [silent_cycle 1 None, silent_cycle 2 None, silent_cycle 3 None] group_gone
   = (Returns 124,
      \<lparr>last_at = 0, xctest_pid = None, timed_out = True, returncode = Some (- 15),
       trace = [IdleCheck False, Poll None, IdleCheck False, Poll None,
                IdleCheck True, Print IdleLimitExceeded, Poll None,
                Killpg SIGTERM, Killpg SIGKILL, Communicate 3]\<rparr>)"
  by (simp add: run_unfold env_unfold)

text \<open>
  C5, amended: signals are sent only when a timeout was recorded and the child is still
  running at line 125, and then \<open>SIGTERM\<close> is the first. If that call returns,
  \<open>SIGKILL\<close> follows only when none of the ten polls of line 143, 0.2 seconds apart,
  nor the poll of line 146 finds the child gone, so that 2 seconds have been slept before
  it (and it is sent once more when the first \<open>SIGKILL\<close> is refused); if that call
  raises, \<open>SIGKILL\<close> follows at once, with no sleep. A run never sleeps more than 2
  seconds, and a run that ends by the child's own exit sends no signal.
\<close>

theorem C5_escalation_order:
  "signals (trace (snd (run_with_timeouts cfg pid start script e)))
     = (if timed_out (snd (run_with_timeouts cfg pid start script e)) \<and> poll_125 e = None
        then SIGTERM #
          (if killpg_140 e = Delivered
           then (if survives_grace e
                 then SIGKILL # (if killpg_147 e = NotPermitted then [SIGKILL] else [])
                 else [])
           else [SIGKILL])
        else [])
   \<and> slept (trace (snd (run_with_timeouts cfg pid start script e))) \<le> 2
   \<and> (timed_out (snd (run_with_timeouts cfg pid start script e)) \<and> poll_125 e = None
        \<and> killpg_140 e = Delivered \<and> survives_grace e \<longrightarrow>
        slept (takeWhile (\<lambda>a. a \<noteq> Killpg SIGKILL)
          (trace (snd (run_with_timeouts cfg pid start script e)))) = 2)
   \<and> (killpg_140 e \<noteq> Delivered \<longrightarrow>
        slept (trace (snd (run_with_timeouts cfg pid start script e))) = 0)"
proof -
  let ?run = "run_with_timeouts cfg pid start script e"
  have "signals (trace (snd ?run)) = signals (filter intervention (trace (snd ?run)))"
    by (simp only: signals_interventions)
  also have "\<dots> = (if timed_out (snd ?run) \<and> poll_125 e = None
        then SIGTERM # after_sigterm e else [])"
    by (simp add: run_interventions)
  finally have sig: "signals (trace (snd ?run)) = (if timed_out (snd ?run) \<and> poll_125 e = None
        then SIGTERM # after_sigterm e else [])" .
  from sig run_slept(2) [of cfg pid start script e] run_slept(3) [of cfg pid start script e]
    run_grace_before_kill [of cfg pid start script e]
  show ?thesis by (simp add: after_sigterm_def)
qed

theorem C5_escalation_order_witness:
  "timed_out (snd (run_with_timeouts idle_only 500 0
      [silent_cycle 1 None, silent_cycle 2 None, silent_cycle 3 None] stubborn))
   \<and> poll_125 stubborn = None \<and> killpg_140 stubborn = Delivered \<and> survives_grace stubborn
   \<and> signals (trace (snd (run_with_timeouts idle_only 500 0
        [silent_cycle 1 None, silent_cycle 2 None, silent_cycle 3 None] stubborn)))
       = [SIGTERM, SIGKILL]
   \<and> slept (takeWhile (\<lambda>a. a \<noteq> Killpg SIGKILL) (trace (snd (run_with_timeouts idle_only 500 0
        [silent_cycle 1 None, silent_cycle 2 None, silent_cycle 3 None] stubborn)))) = 2"
proof -
  let ?script = "[silent_cycle 1 None, silent_cycle 2 None, silent_cycle 3 None]"
  have env: "poll_125 stubborn = None" "killpg_140 stubborn = Delivered"
    "survives_grace stubborn" "killpg_147 stubborn \<noteq> NotPermitted"
    by (simp_all add: stubborn_def calm_def survives_grace_def list_all_iff)
  have "monitor idle_only 0 ?script (initial 0)
      = Break (\<lparr>last_at = 0, xctest_pid = None, timed_out = True, returncode = None,
          trace = [IdleCheck False, Poll None, IdleCheck False, Poll None,
                   IdleCheck True, Print IdleLimitExceeded]\<rparr>)"
    by (simp add: run_unfold)
  then have t: "timed_out (snd (run_with_timeouts idle_only 500 0 ?script stubborn))"
    by (simp add: run_with_timeouts_def after_loop_proj terminate_timed_out)
  from C5_escalation_order [of idle_only 500 0 ?script stubborn] t env
  show ?thesis by simp
qed

subsection \<open>Sampling\<close>



subsection \<open>One outcome\<close>

text \<open>
  C7. In every run of the loop at most one comparison or poll is decisive (a limit found
  exceeded, the child found gone). When the loop is left, there is exactly one: it is the
  last comparison or poll the loop makes, so the first condition detected wins; turns
  presented after it are not looked at; and nothing after the loop compares against a
  limit again.
\<close>

theorem C7_single_outcome:
  "length (filter decisive (fresh st (loop_state (monitor cfg start script st)))) \<le> 1
   \<and> (monitor cfg start script st = Break st' \<longrightarrow>
        (\<exists>cs d. filter is_check (fresh st st') = cs @ [d] \<and> decisive d \<and> filter decisive cs = [])
        \<and> length (filter decisive (fresh st st')) = 1
        \<and> monitor cfg start (script @ later) st = Break st'
        \<and> filter timeout_check (trace (snd (after_loop cfg pid e st')))
            = filter timeout_check (trace st'))"
proof -
  have brk: "\<exists>cs d. filter is_check (fresh st st') = cs @ [d] \<and> decisive d \<and> filter decisive cs = []"
    and one: "length (filter decisive (fresh st st')) = 1"
    if b: "monitor cfg start script st = Break st'" for st'
  proof -
    from monitor_break [OF b] obtain new cs d where
      n: "trace st' = trace st @ new" "filter is_check new = cs @ [d]" "decisive d"
        "filter decisive cs = []" by blast
    from n(1) have f: "fresh st st' = new" by (simp add: fresh_def)
    from n f show "\<exists>cs d. filter is_check (fresh st st') = cs @ [d] \<and> decisive d
        \<and> filter decisive cs = []" by auto
    have "filter decisive new = filter decisive (filter is_check new)"
      by (simp only: filter_decisive_checks)
    also have "\<dots> = [d]" using n(2,3,4) by simp
    finally show "length (filter decisive (fresh st st')) = 1" using f by simp
  qed
  have count: "length (filter decisive (fresh st (loop_state (monitor cfg start script st)))) \<le> 1"
  proof (cases "monitor cfg start script st")
    case (Continue fin)
    from monitor_continue [OF Continue] obtain new where
      "trace fin = trace st @ new" "filter decisive new = []" by blast
    with Continue show ?thesis by (simp add: loop_state_def fresh_def)
  next
    case (Break fin)
    with one [OF Break] show ?thesis by (simp add: loop_state_def)
  next
    case (Blocked fin)
    from monitor_blocked [OF Blocked] obtain new where
      "trace fin = trace st @ new" "filter decisive new = []" by blast
    with Blocked show ?thesis by (simp add: loop_state_def fresh_def)
  qed
  have post: "filter timeout_check (trace (snd (after_loop cfg pid e st')))
            = filter timeout_check (trace st')"
    by (simp only: after_loop_proj terminate_timeout_checks)
  from count brk one post monitor_append_break [of cfg start script st st' later]
  show ?thesis by blast
qed

theorem C7_single_outcome_witness:
  "monitor idle_only 0 [silent_cycle 1 None, silent_cycle 2 None, silent_cycle 3 None,
      silent_cycle 4 (Some 0)] (initial 0)
     = Break \<lparr>last_at = 0, xctest_pid = None, timed_out = True, returncode = None,
              trace = [IdleCheck False, Poll None, IdleCheck False, Poll None,
                       IdleCheck True, Print IdleLimitExceeded]\<rparr>
   \<and> filter is_check [IdleCheck False, Poll None, IdleCheck False, Poll None,
                       IdleCheck True, Print IdleLimitExceeded]
       = [IdleCheck False, Poll None, IdleCheck False, Poll None] @ [IdleCheck True]
   \<and> length (filter decisive [IdleCheck False, Poll None, IdleCheck False, Poll None,
                       IdleCheck True, Print IdleLimitExceeded]) = 1"
proof -
  let ?tr = "[IdleCheck False, Poll None, IdleCheck False, Poll None,
              IdleCheck True, Print IdleLimitExceeded]"
  let ?fin = "\<lparr>last_at = 0, xctest_pid = None, timed_out = True, returncode = None, trace = ?tr\<rparr>"
  let ?script = "[silent_cycle 1 None, silent_cycle 2 None, silent_cycle 3 None,
      silent_cycle 4 (Some 0)]"
  have b: "monitor idle_only 0 ?script (initial 0) = Break ?fin"
    by (simp add: run_unfold)
  have f: "fresh (initial 0) ?fin = ?tr" by (simp add: fresh_def)
  from C7_single_outcome [of "initial 0" idle_only 0 ?script ?fin "[]" 500 calm] b f
  show ?thesis by simp
qed

subsection \<open>Errors of signalling\<close>

text \<open>
  C8, as stated: any signalling error in the termination path is swallowed. A
  \<open>PermissionError\<close> at line 140 is caught at line 148, but \<open>kill_tree\<close> catches
  \<open>ProcessLookupError\<close> only: a second \<open>PermissionError\<close> at line 149 leaves
  \<open>run_with_timeouts\<close>.
\<close>

theorem C8_counterexample:
  "run_with_timeouts idle_only 500 0
     [silent_cycle 1 None, silent_cycle 2 None, silent_cycle 3 None] group_denied
   = (Raises PermissionError,
      \<lparr>last_at = 0, xctest_pid = None, timed_out = True, returncode = None,
       trace = [IdleCheck False, Poll None, IdleCheck False, Poll None,
                IdleCheck True, Print IdleLimitExceeded, Poll None,
                Killpg SIGTERM, Killpg SIGKILL]\<rparr>)"
  by (simp add: run_unfold env_unfold)

text \<open>
  C8, amended: \<open>ProcessLookupError\<close> never leaves \<open>run_with_timeouts\<close>; the only
  exception signalling can raise to the caller is a \<open>PermissionError\<close> of the
  \<open>SIGKILL\<close> call of line 149, after a timeout. Whenever that call is not refused, a
  run in which a timeout was recorded returns 124.
\<close>

theorem C8_lookup_errors_swallowed:
  "(fst (run_with_timeouts cfg pid start script e) = Raises ex \<longrightarrow>
      ex = PermissionError \<and> killpg_149 e = NotPermitted
      \<and> timed_out (snd (run_with_timeouts cfg pid start script e)))
   \<and> (killpg_149 e \<noteq> NotPermitted \<and> timed_out (snd (run_with_timeouts cfg pid start script e))
        \<longrightarrow> fst (run_with_timeouts cfg pid start script e) = Returns 124)"
proof (cases rule: run_state_cases [of cfg pid start script e])
  case unfinished
  then show ?thesis by auto
next
  case (exit st n)
  from terminate_idle(5) [OF exit(3), of cfg pid] obtain fin where
    "terminate cfg pid e st = Inr fin" by blast
  moreover have "\<not> timed_out (snd (after_loop cfg pid e st))"
    using exit(1) by (simp add: after_loop_proj terminate_timed_out)
  ultimately show ?thesis using exit(6) by (simp add: after_loop_eq)
next
  case (timeout st)
  have t: "timed_out (snd (after_loop cfg pid e st))"
    using timeout(1) by (simp add: after_loop_proj terminate_timed_out)
  show ?thesis
  proof (cases "terminate cfg pid e st")
    case (Inr fin)
    from terminate_timed_out [of cfg pid e st] Inr timeout(1)
    have "timed_out fin" by (simp add: final_def)
    with Inr timeout(6) show ?thesis by (simp add: after_loop_eq exit_code_def)
  next
    case (Inl x)
    obtain ex' fin where x: "x = (ex', fin)" by (cases x)
    have eng: "engaged e st"
      using Inl terminate_idle(5) [of e st cfg pid] by auto
    from terminate_engaged(4) [OF eng, of cfg pid] Inl
    have "killpg_149 e = NotPermitted" by blast
    moreover from terminate_engaged(5) [OF eng, of cfg pid ex' fin] Inl x
    have "ex' = PermissionError" by simp
    ultimately show ?thesis using Inl x timeout(6) t by (simp add: after_loop_eq)
  qed
qed

theorem C8_lookup_errors_swallowed_witness:
  "killpg_140 group_gone = NoSuchGroup \<and> killpg_149 group_gone \<noteq> NotPermitted
   \<and> timed_out (snd (run_with_timeouts idle_only 500 0
        [silent_cycle 1 None, silent_cycle 2 None, silent_cycle 3 None] group_gone))
   \<and> fst (run_with_timeouts idle_only 500 0
        [silent_cycle 1 None, silent_cycle 2 None, silent_cycle 3 None] group_gone)
       = Returns 124"
proof -
  let ?script = "[silent_cycle 1 None, silent_cycle 2 None, silent_cycle 3 None]"
  have env: "killpg_140 group_gone = NoSuchGroup" "killpg_149 group_gone \<noteq> NotPermitted"
    by (simp_all add: group_gone_def calm_def)
  have "monitor idle_only 0 ?script (initial 0)
      = Break (\<lparr>last_at = 0, xctest_pid = None, timed_out = True, returncode = None,
          trace = [IdleCheck False, Poll None, IdleCheck False, Poll None,
                   IdleCheck True, Print IdleLimitExceeded]\<rparr>)"
    by (simp add: run_unfold)
  then have t: "timed_out (snd (run_with_timeouts idle_only 500 0 ?script group_gone))"
    by (simp add: run_with_timeouts_def after_loop_proj terminate_timed_out)
  from C8_lookup_errors_swallowed [of idle_only 500 0 ?script group_gone] t env
  show ?thesis by simp
qed

subsection \<open>Draining\<close>

text \<open>
  C9, as stated: a drain that fails is logged. When \<open>proc.communicate\<close> raises after a
  timeout, the run ends with that call: the only notice of the whole run is the one of
  the timeout.
\<close>

theorem C9_counterexample:
  "communicate_153 drain_fails = DrainRaised
   \<and> run_with_timeouts idle_only 500 0
       [silent_cycle 1 None, silent_cycle 2 None, silent_cycle 3 None] drain_fails
     = (Returns 124,
        \<lparr>last_at = 0, xctest_pid = None, timed_out = True, returncode = Some (- 15),
         trace = [IdleCheck False, Poll None, IdleCheck False, Poll None,
                  IdleCheck True, Print IdleLimitExceeded, Poll None,
                  Killpg SIGTERM, Poll None, Sleep (1 / 5), Poll (Some (- 15)),
                  Poll (Some (- 15)), Communicate 3]\<rparr>)"
  by (simp add: run_unfold env_unfold eval_nat_numeral)

text \<open>
  C9, amended: a run that returns has ended with one call of \<open>proc.communicate\<close>,
  limited to 3 seconds, and with what that call returned for the two streams written to
  the parent's streams, standard output first; if the call raised, nothing is written
  after it and nothing is printed. Whether a run returns or raises, and the code it
  returns, do not depend on what that call does. (Which text the call returns is the
  environment's matter and is not stated here.)
\<close>

theorem C9_drain:
  "(fst (run_with_timeouts cfg pid start script e) = Returns n \<longrightarrow>
      (\<exists>before. trace (snd (run_with_timeouts cfg pid start script e))
         = before @ Communicate 3 #
             (case communicate_153 e of
                DrainRaised \<Rightarrow> []
              | Drained out err rc \<Rightarrow>
                  (if out \<noteq> [] then [Forward Stdout out] else [])
                  @ (if err \<noteq> [] then [Forward Stderr err] else []))))
   \<and> fst (run_with_timeouts cfg pid start script (e\<lparr>communicate_153 := d\<rparr>))
       = fst (run_with_timeouts cfg pid start script e)"
proof (cases "monitor cfg start script (initial start)")
  case (Continue fin)
  then show ?thesis by (simp add: run_with_timeouts_def)
next
  case (Blocked fin)
  then show ?thesis by (simp add: run_with_timeouts_def)
next
  case (Break fin)
  let ?e' = "e\<lparr>communicate_153 := d\<rparr>"
  have run: "run_with_timeouts cfg pid start script e = after_loop cfg pid e fin"
    "run_with_timeouts cfg pid start script ?e' = after_loop cfg pid ?e' fin"
    using Break by (simp_all add: run_with_timeouts_def)
  have "returncode (initial start) = None" "\<not> timed_out (initial start)" by simp_all
  from monitor_end [OF this, where cfg = cfg and start = start and script = script] Break
  have ended: "timed_out fin \<or> returncode fin \<noteq> None" by auto
  show ?thesis
  proof (cases "terminate cfg pid e fin")
    case (Inl x)
    then show ?thesis
      by (simp add: run after_loop_eq terminate_drain_irrelevant split: prod.splits)
  next
    case (Inr s)
    have settled: "timed_out s \<or> returncode s \<noteq> None"
    proof (cases "timed_out fin")
      case True
      with terminate_timed_out [of cfg pid e fin] Inr show ?thesis by (simp add: final_def)
    next
      case False
      then have "\<not> engaged e fin" by (simp add: engaged_def)
      with False Inr have "s = fin" by (simp add: terminate_eq)
      with ended False show ?thesis by simp
    qed
    from drain_exit_code [OF settled, of e] drain_exit_code [OF settled, of ?e']
    have same: "exit_code (drain ?e' s) = exit_code (drain e s)" by simp
    have "trace (snd (run_with_timeouts cfg pid start script e))
        = trace s @ Communicate 3 #
             (case communicate_153 e of
                DrainRaised \<Rightarrow> []
              | Drained out err rc \<Rightarrow>
                  (if out \<noteq> [] then [Forward Stdout out] else [])
                  @ (if err \<noteq> [] then [Forward Stderr err] else []))"
      using Inr by (simp add: run after_loop_eq drain_trace)
    then have suffix: "\<exists>before. trace (snd (run_with_timeouts cfg pid start script e))
        = before @ Communicate 3 #
             (case communicate_153 e of
                DrainRaised \<Rightarrow> []
              | Drained out err rc \<Rightarrow>
                  (if out \<noteq> [] then [Forward Stdout out] else [])
                  @ (if err \<noteq> [] then [Forward Stderr err] else []))"
      by blast
    have "fst (run_with_timeouts cfg pid start script ?e')
        = fst (run_with_timeouts cfg pid start script e)"
      using Inr same by (simp add: run after_loop_eq terminate_drain_irrelevant)
    with suffix show ?thesis by simp
  qed
qed

theorem C9_drain_witness:
  "fst (run_with_timeouts idle_only 500 0
      [silent_cycle 1 None, silent_cycle 2 None, silent_cycle 3 None] calm) = Returns 124
   \<and> drain_fails = calm\<lparr>communicate_153 := DrainRaised\<rparr>
   \<and> fst (run_with_timeouts idle_only 500 0
      [silent_cycle 1 None, silent_cycle 2 None, silent_cycle 3 None] drain_fails) = Returns 124
   \<and> (\<exists>before. trace (snd (run_with_timeouts idle_only 500 0
         [silent_cycle 1 None, silent_cycle 2 None, silent_cycle 3 None] drain_fails))
        = before @ [Communicate 3])"
proof -
  let ?script = "[silent_cycle 1 None, silent_cycle 2 None, silent_cycle 3 None]"
  have r: "fst (run_with_timeouts idle_only 500 0 ?script calm) = Returns 124"
    by (simp add: run_unfold eval_nat_numeral)
  have d: "drain_fails = calm\<lparr>communicate_153 := DrainRaised\<rparr>"
    "communicate_153 drain_fails = DrainRaised"
    by (simp_all add: drain_fails_def)
  from C9_drain [of idle_only 500 0 ?script calm 124 DrainRaised]
  have f: "fst (run_with_timeouts idle_only 500 0 ?script drain_fails) = Returns 124"
    using r d by simp
  from C9_drain [of idle_only 500 0 ?script drain_fails 124 DrainRaised] f d r
  show ?thesis by simp
qed

subsection \<open>Configuration\<close>

text \<open>
  C10. Sampling is enabled exactly when the flag \<open>--sample\<close> is given or the variable
  \<open>WITH_TIMEOUT_SAMPLE_ON_TIMEOUT\<close> is set to a string that is not empty (the strings
  \<open>0\<close> and \<open>false\<close> enable it too); a value of \<open>WITH_TIMEOUT_SAMPLE_SECONDS\<close> that
  \<open>int\<close> refuses is ignored and the value of \<open>--sample-seconds\<close>, 8 by default, is
  used, as it is when the variable is not set; a value that \<open>int\<close> accepts is used. This
  holds whatever \<open>int\<close> accepts.
\<close>

theorem C10_sampling_configuration:
  "(sample_on_timeout (main_config to_int a e) \<longleftrightarrow>
      arg_sample a \<or> (\<exists>v. e ''WITH_TIMEOUT_SAMPLE_ON_TIMEOUT'' = Some v \<and> v \<noteq> []))
   \<and> sample_on_timeout
        (main_config to_int default_args [''WITH_TIMEOUT_SAMPLE_ON_TIMEOUT'' \<mapsto> ''0''])
   \<and> sample_on_timeout
        (main_config to_int default_args [''WITH_TIMEOUT_SAMPLE_ON_TIMEOUT'' \<mapsto> ''false''])
   \<and> (e ''WITH_TIMEOUT_SAMPLE_SECONDS'' = Some v \<and> to_int v = None \<longrightarrow>
        sample_seconds (main_config to_int a e) = arg_sample_seconds a)
   \<and> (e ''WITH_TIMEOUT_SAMPLE_SECONDS'' = Some v \<and> v \<noteq> [] \<and> to_int v = Some n \<longrightarrow>
        sample_seconds (main_config to_int a e) = n)
   \<and> (e ''WITH_TIMEOUT_SAMPLE_SECONDS'' = None \<longrightarrow>
        sample_seconds (main_config to_int a e) = arg_sample_seconds a)
   \<and> arg_sample_seconds default_args = 8"
  by (auto simp: main_config_def env_sample_on_timeout_def environ_get_def
      effective_sample_seconds_def default_args_def split: option.splits)

theorem C10_sampling_configuration_witness:
  "[''WITH_TIMEOUT_SAMPLE_SECONDS'' \<mapsto> ''8s''] ''WITH_TIMEOUT_SAMPLE_SECONDS'' = Some ''8s''
   \<and> py_int ''8s'' = None
   \<and> sample_seconds (main_config py_int default_args [''WITH_TIMEOUT_SAMPLE_SECONDS'' \<mapsto> ''8s''])
       = 8
   \<and> \<not> sample_on_timeout
         (main_config py_int default_args [''WITH_TIMEOUT_SAMPLE_SECONDS'' \<mapsto> ''8s''])
   \<and> py_int ''12'' = Some 12
   \<and> sample_seconds (main_config py_int default_args [''WITH_TIMEOUT_SAMPLE_SECONDS'' \<mapsto> ''12''])
       = 12"
proof -
  have p: "py_int ''8s'' = None" "py_int ''12'' = Some 12"
    by (simp_all add: py_int_def strip_def is_space_def is_digit_def digit_val_def)
  have m: "[''WITH_TIMEOUT_SAMPLE_SECONDS'' \<mapsto> ''8s''] ''WITH_TIMEOUT_SAMPLE_SECONDS'' = Some ''8s''"
    "[''WITH_TIMEOUT_SAMPLE_SECONDS'' \<mapsto> ''12''] ''WITH_TIMEOUT_SAMPLE_SECONDS'' = Some ''12''"
    by simp_all
  from C10_sampling_configuration
      [of py_int default_args "[''WITH_TIMEOUT_SAMPLE_SECONDS'' \<mapsto> ''8s'']" "''8s''" 0]
    C10_sampling_configuration
      [of py_int default_args "[''WITH_TIMEOUT_SAMPLE_SECONDS'' \<mapsto> ''12'']" "''12''" 12]
    p m
  show ?thesis by (simp add: default_args_def)
qed

end
